theory Spec2Isabelle
  imports Complex_Main
begin

section \<open>The five tables of the ConnectUAE cleaning script\<close>

text \<open>
  The script \<^verbatim>\<open>clean_data_script.py\<close> threads five pandas tables through five
  cleaning stages. A table is the list of its rows in index order, a row a record of its
  columns (the columns the generator writes, plus the flag column a stage adds).

  Representation of the cells:
  \<^item> a \<^verbatim>\<open>float64\<close> cell is \<open>NaN\<close> (the missing value), a finite value or an infinity. A
    finite value is kept as the rational number it denotes; the two zeros are not told
    apart, no comparison of the script tells them apart;
  \<^item> a timestamp is the 64-bit count of nanoseconds pandas stores for it; a date column
    that may hold \<^verbatim>\<open>NaT\<close> is an \<open>option\<close>, \<open>None\<close> being \<^verbatim>\<open>NaT\<close>: these are
    \<^verbatim>\<open>churn_date\<close>, \<^verbatim>\<open>payment_date\<close>, \<^verbatim>\<open>resolution_date\<close> and the start and end time of an
    outage. The other dates hold a value in every row;
  \<^item> \<^verbatim>\<open>subscriber_id\<close> may be missing in the subscriber and usage tables (\<open>None\<close>); the
    other key columns and the label columns hold a value in every row;
  \<^item> a flag column that a stage creates is \<open>None\<close> in a row for which no stage has
    written it yet;
  \<^item> every comparison with a missing value is false, as it is in pandas, while
    \<^verbatim>\<open>drop_duplicates\<close>, \<^verbatim>\<open>unique\<close>, \<^verbatim>\<open>merge\<close> and \<^verbatim>\<open>isin\<close> take two missing keys for
    the same key.
\<close>

datatype float64 = NaN | Finite rat | PosInf | NegInf

datatype error = OverflowError

type_synonym timestamp = int

record subscriber =
  subscriber_id :: "string option"
  city :: string
  plan_type :: string
  plan_name :: string
  monthly_charge :: float64
  activation_date :: timestamp
  status :: string
  churn_date :: "timestamp option"

record usage_record =
  usage_id :: string
  usage_subscriber_id :: "string option"
  usage_date :: timestamp
  data_usage_gb :: float64
  call_minutes :: int
  sms_count :: int
  roaming_charges :: float64
  usage_outlier_flag :: "bool option"

record billing_record =
  bill_id :: string
  billing_subscriber_id :: string
  bill_date :: timestamp
  due_date :: timestamp
  bill_amount :: float64
  payment_status :: string
  payment_date :: "timestamp option"
  billing_data_quality_flag :: "bool option"

record ticket =
  ticket_id :: string
  ticket_subscriber_id :: string
  ticket_date :: timestamp
  ticket_category :: string
  ticket_status :: string
  ticket_channel :: string
  resolution_date :: "timestamp option"
  ticket_data_quality_flag :: "bool option"

record outage_record =
  outage_id :: string
  affected_city :: string
  outage_type :: string
  outage_start_time :: "timestamp option"
  outage_end_time :: "timestamp option"
  outage_duration_mins :: float64
  affected_subscribers :: int
  outage_outlier_flag :: "bool option"

text \<open>
  Every stage takes the five tables and returns the five tables; the tuple is the record
  \<open>tables\<close>, its fields named after the script's parameters.
\<close>

record tables =
  subscribers :: "subscriber list"
  usage :: "usage_record list"
  billing :: "billing_record list"
  tickets :: "ticket list"
  outages :: "outage_record list"

subsection \<open>Comparisons\<close>

text \<open>
  \<^verbatim>\<open>column > c\<close> and \<^verbatim>\<open>column >= c\<close> on a \<^verbatim>\<open>float64\<close> column and a finite constant,
  \<^verbatim>\<open>a < b\<close> on a date that may be \<^verbatim>\<open>NaT\<close>, and \<^verbatim>\<open>column == value\<close> on a column that may
  be missing.
\<close>

definition gt_const :: "float64 \<Rightarrow> rat \<Rightarrow> bool" where
  "gt_const v c = (case v of NaN \<Rightarrow> False | Finite x \<Rightarrow> c < x | PosInf \<Rightarrow> True | NegInf \<Rightarrow> False)"

definition ge_const :: "float64 \<Rightarrow> rat \<Rightarrow> bool" where
  "ge_const v c = (case v of NaN \<Rightarrow> False | Finite x \<Rightarrow> c \<le> x | PosInf \<Rightarrow> True | NegInf \<Rightarrow> False)"

definition date_before :: "timestamp option \<Rightarrow> timestamp \<Rightarrow> bool" where
  "date_before r t = (case r of None \<Rightarrow> False | Some x \<Rightarrow> x < t)"

definition eq_cell :: "'a option \<Rightarrow> 'a option \<Rightarrow> bool" where
  "eq_cell a b \<longleftrightarrow> a \<noteq> None \<and> a = b"

subsection \<open>Arithmetic of \<^verbatim>\<open>float64\<close>\<close>

text \<open>
  Rounding of a real number to \<^verbatim>\<open>float64\<close> as IEEE 754 prescribes for binary64: to the
  nearest number with a 53-bit significand, a tie to the one with an even significand;
  below \<^verbatim>\<open>2 ** -1022\<close> the numbers are \<^verbatim>\<open>2 ** -1074\<close> apart; a result of magnitude
  \<^verbatim>\<open>2 ** 1024\<close> or more is an infinity.
\<close>

function bit_length :: "int \<Rightarrow> nat" where
  "bit_length n = (if n \<le> 0 then 0 else Suc (bit_length (n div 2)))"
  by pat_completeness auto
termination
  by (relation "measure nat") auto

definition pow2 :: "int \<Rightarrow> rat" where
  "pow2 e = (if 0 \<le> e then 2 ^ nat e else 1 / 2 ^ nat (- e))"

text \<open>
  \<open>bit_length n\<close> is the number of binary digits of a positive \<open>n\<close>; \<open>floor_log2 x\<close> is
  the integer \<open>e\<close> with \<open>pow2 e \<le> x < pow2 (e + 1)\<close>, for a positive \<open>x\<close>.
\<close>

definition floor_log2 :: "rat \<Rightarrow> int" where
  "floor_log2 x =
     (let (p, q) = quotient_of x;
          d = int (bit_length p) - int (bit_length q)
      in if pow2 d \<le> x then d else d - 1)"

definition round_half_even :: "rat \<Rightarrow> int" where
  "round_half_even x =
     (let f = \<lfloor>x\<rfloor>; r = x - of_int f
      in if r < 1 / 2 then f else if 1 / 2 < r then f + 1
         else if even f then f else f + 1)"

text \<open>\<open>float64_overflow\<close> is \<^verbatim>\<open>2 ** 1024\<close>, written out.\<close>

definition float64_overflow :: rat where
  "float64_overflow =
     179769313486231590772930519078902473361797697894230657273430081157732675805500963132708477322407536021120113879871393357658789768814416622492847430639474124377767893424865485276302219601246094119453082952085005768838150682342462881473913110540827237163350510684586298239947245938479716304835356329624224137216"

definition round_float64 :: "rat \<Rightarrow> float64" where
  "round_float64 x =
     (if x = 0 then Finite 0
      else let a = \<bar>x\<bar>;
               e = max (floor_log2 a) (- 1022);
               q = pow2 (e - 52);
               y = of_int (round_half_even (a / q)) * q
           in if float64_overflow \<le> y then (if 0 < x then PosInf else NegInf)
              else Finite (if 0 < x then y else - y))"

text \<open>
  Division of a \<^verbatim>\<open>float64\<close> by a positive finite constant (a count, \<^verbatim>\<open>10**9\<close>, 60), and
  addition of two \<^verbatim>\<open>float64\<close>.
\<close>

definition float_div :: "float64 \<Rightarrow> rat \<Rightarrow> float64" where
  "float_div x c =
     (case x of NaN \<Rightarrow> NaN | Finite a \<Rightarrow> round_float64 (a / c) | PosInf \<Rightarrow> PosInf
      | NegInf \<Rightarrow> NegInf)"

fun float_add :: "float64 \<Rightarrow> float64 \<Rightarrow> float64" where
  "float_add (Finite a) (Finite b) = round_float64 (a + b)"
| "float_add NaN y = NaN"
| "float_add x NaN = NaN"
| "float_add PosInf NegInf = NaN"
| "float_add NegInf PosInf = NaN"
| "float_add PosInf y = PosInf"
| "float_add x PosInf = PosInf"
| "float_add NegInf y = NegInf"
| "float_add x NegInf = NegInf"

text \<open>
  The sum of a column is computed by the numeric library underneath pandas, and the
  order in which it adds depends on the library and on the length of the column. The
  stages therefore take the summation as the parameter \<open>series_sum\<close>. One summation is
  \<open>float64_sum\<close>, which adds from left to right and rounds after every addition.
\<close>

definition float64_sum :: "float64 list \<Rightarrow> float64" where
  "float64_sum vs = foldl float_add (Finite 0) vs"

section \<open>Stage 1: \<^verbatim>\<open>remove_duplicates\<close>\<close>

text \<open>
  \<^verbatim>\<open>df.drop_duplicates(subset=[key], keep='first')\<close>: going through the rows in index
  order, a row is dropped when its key has been seen on an earlier row. \<open>seen\<close> is the
  list of the keys met so far.
\<close>

fun drop_duplicates_from :: "('a \<Rightarrow> 'k) \<Rightarrow> 'k list \<Rightarrow> 'a list \<Rightarrow> 'a list" where
  "drop_duplicates_from key seen [] = []"
| "drop_duplicates_from key seen (r # rs) =
     (if key r \<in> set seen then drop_duplicates_from key seen rs
      else r # drop_duplicates_from key (key r # seen) rs)"

definition drop_duplicates :: "('a \<Rightarrow> 'k) \<Rightarrow> 'a list \<Rightarrow> 'a list" where
  "drop_duplicates key rs = drop_duplicates_from key [] rs"

definition remove_duplicates :: "tables \<Rightarrow> tables" where
  "remove_duplicates d =
     \<lparr>subscribers = drop_duplicates subscriber_id (subscribers d),
      usage = drop_duplicates usage_id (usage d),
      billing = drop_duplicates bill_id (billing d),
      tickets = drop_duplicates ticket_id (tickets d),
      outages = drop_duplicates outage_id (outages d)\<rparr>"

text \<open>The number the stage prints for a table: rows before minus rows after.\<close>

definition removed_count :: "('a \<Rightarrow> 'k) \<Rightarrow> 'a list \<Rightarrow> nat" where
  "removed_count key rs = length rs - length (drop_duplicates key rs)"

section \<open>Stage 2: \<^verbatim>\<open>standardize_labels\<close>\<close>

text \<open>
  The three synonym dictionaries, in the order the script writes them, and
  \<^verbatim>\<open>Series.replace(mapping)\<close>: a cell equal to a key becomes that key's value, any other
  cell is kept.
\<close>

definition plan_type_mapping :: "(string \<times> string) list" where
  "plan_type_mapping =
     [(''prepaid'', ''Prepaid''), (''PREPAID'', ''Prepaid''), (''Pre-paid'', ''Prepaid''),
      (''postpaid'', ''Postpaid''), (''POSTPAID'', ''Postpaid''), (''Post-paid'', ''Postpaid'')]"

definition city_mapping :: "(string \<times> string) list" where
  "city_mapping =
     [(''AbuDhabi'', ''Abu Dhabi''), (''Abu-Dhabi'', ''Abu Dhabi''), (''AD'', ''Abu Dhabi''),
      (''dubai'', ''Dubai''), (''DUBAI'', ''Dubai'')]"

definition status_mapping :: "(string \<times> string) list" where
  "status_mapping =
     [(''resolved'', ''Resolved''), (''RESOLVED'', ''Resolved''), (''Closed'', ''Resolved''),
      (''open'', ''Open''), (''OPEN'', ''Open'')]"

definition replace :: "(string \<times> string) list \<Rightarrow> string \<Rightarrow> string" where
  "replace mapping v = (case map_of mapping v of None \<Rightarrow> v | Some c \<Rightarrow> c)"

definition standardize_labels :: "tables \<Rightarrow> tables" where
  "standardize_labels d =
     d\<lparr>subscribers :=
          map (\<lambda>s. s\<lparr>city := replace city_mapping (city s)\<rparr>)
            (map (\<lambda>s. s\<lparr>plan_type := replace plan_type_mapping (plan_type s)\<rparr>)
               (subscribers d)),
       tickets :=
          map (\<lambda>t. t\<lparr>ticket_status := replace status_mapping (ticket_status t)\<rparr>)
            (tickets d)\<rparr>"

section \<open>Stage 3: \<^verbatim>\<open>handle_missing_values\<close>\<close>

text \<open>
  \<^verbatim>\<open>Series.unique()\<close> lists the distinct values in order of first appearance.
  \<^verbatim>\<open>Series.mean()\<close> skips missing cells, is missing itself on an empty selection, and is
  otherwise the sum of the cells divided by their number, in \<^verbatim>\<open>float64\<close>.
\<close>

definition unique :: "'a list \<Rightarrow> 'a list" where
  "unique xs = drop_duplicates (\<lambda>x. x) xs"

definition mean :: "(float64 list \<Rightarrow> float64) \<Rightarrow> float64 list \<Rightarrow> float64" where
  "mean series_sum col =
     (let vs = filter (\<lambda>v. v \<noteq> NaN) col
      in if vs = [] then NaN else float_div (series_sum vs) (of_nat (length vs)))"

text \<open>
  The body of the loop over the \<^verbatim>\<open>subscriber_id\<close> values of the rows with a missing
  \<^verbatim>\<open>data_usage_gb\<close>: the mean of the subscriber's present values in the table as it is
  now, written into the subscriber's missing cells; 0 when that mean is missing. The
  rows of a subscriber are selected with \<^verbatim>\<open>==\<close>, which no row satisfies when the
  value looked for is the missing one.
\<close>

definition sub_avg :: "(float64 list \<Rightarrow> float64) \<Rightarrow> usage_record list \<Rightarrow> string option \<Rightarrow> float64" where
  "sub_avg series_sum us sub_id =
     mean series_sum (map data_usage_gb
       (filter (\<lambda>u. eq_cell (usage_subscriber_id u) sub_id \<and> data_usage_gb u \<noteq> NaN) us))"

definition assign_missing_usage :: "usage_record list \<Rightarrow> string option \<Rightarrow> float64 \<Rightarrow> usage_record list" where
  "assign_missing_usage us sub_id v =
     map (\<lambda>u. if eq_cell (usage_subscriber_id u) sub_id \<and> data_usage_gb u = NaN
               then u\<lparr>data_usage_gb := v\<rparr> else u) us"

definition impute_subscriber ::
  "(float64 list \<Rightarrow> float64) \<Rightarrow> usage_record list \<Rightarrow> string option \<Rightarrow> usage_record list" where
  "impute_subscriber series_sum us sub_id =
     (let avg = sub_avg series_sum us sub_id
      in if avg \<noteq> NaN then assign_missing_usage us sub_id avg
         else assign_missing_usage us sub_id (Finite 0))"

definition impute_usage :: "(float64 list \<Rightarrow> float64) \<Rightarrow> usage_record list \<Rightarrow> usage_record list" where
  "impute_usage series_sum us =
     foldl (impute_subscriber series_sum) us
       (unique (map usage_subscriber_id (filter (\<lambda>u. data_usage_gb u = NaN) us)))"

text \<open>
  The flag columns: created \<^verbatim>\<open>False\<close> on every row, then set on the rows of the mask.
\<close>

definition flag_missing_payment :: "billing_record list \<Rightarrow> billing_record list" where
  "flag_missing_payment bs =
     map (\<lambda>b. if payment_status b = ''Paid'' \<and> payment_date b = None
               then b\<lparr>billing_data_quality_flag := Some True\<rparr> else b)
       (map (\<lambda>b. b\<lparr>billing_data_quality_flag := Some False\<rparr>) bs)"

definition flag_missing_resolution :: "ticket list \<Rightarrow> ticket list" where
  "flag_missing_resolution ts =
     map (\<lambda>t. if ticket_status t = ''Resolved'' \<and> resolution_date t = None
               then t\<lparr>ticket_data_quality_flag := Some True\<rparr> else t)
       (map (\<lambda>t. t\<lparr>ticket_data_quality_flag := Some False\<rparr>) ts)"

text \<open>
  \<^verbatim>\<open>outages['outage_end_time'] - outages['outage_start_time']\<close> subtracts the two
  columns row by row in 64-bit integers. A row with a \<^verbatim>\<open>NaT\<close> gives \<^verbatim>\<open>NaT\<close>; a
  difference outside the 64-bit range raises \<^verbatim>\<open>OverflowError\<close>, whichever row it is in;
  the least 64-bit integer is the \<^verbatim>\<open>NaT\<close> of the result. \<open>sequence\<close> collects the rows:
  an error in one row is the error of the column.
\<close>

definition sub_datetime :: "timestamp option \<Rightarrow> timestamp option \<Rightarrow> error + int option" where
  "sub_datetime a b =
     (case a of None \<Rightarrow> Inr None
      | Some x \<Rightarrow>
          (case b of None \<Rightarrow> Inr None
           | Some y \<Rightarrow>
               if x - y < - 9223372036854775808 \<or> 9223372036854775807 < x - y
               then Inl OverflowError
               else if x - y = - 9223372036854775808 then Inr None
               else Inr (Some (x - y))))"

fun sequence :: "(error + 'a) list \<Rightarrow> error + 'a list" where
  "sequence [] = Inr []"
| "sequence (x # xs) =
     (case x of Inl e \<Rightarrow> Inl e
      | Inr v \<Rightarrow> (case sequence xs of Inl e \<Rightarrow> Inl e | Inr vs \<Rightarrow> Inr (v # vs)))"

text \<open>
  \<^verbatim>\<open>.dt.total_seconds()\<close> turns the count of nanoseconds into a \<^verbatim>\<open>float64\<close> and divides
  it by \<^verbatim>\<open>10**9\<close>; \<^verbatim>\<open>NaT\<close> becomes \<^verbatim>\<open>NaN\<close>.
\<close>

definition total_seconds :: "int option \<Rightarrow> float64" where
  "total_seconds td =
     (case td of None \<Rightarrow> NaN
      | Some n \<Rightarrow> float_div (round_float64 (of_int n)) 1000000000)"

text \<open>
  The computed column is written into the rows whose duration is missing; the other rows
  keep their duration.
\<close>

definition compute_missing_duration :: "outage_record list \<Rightarrow> error + outage_record list" where
  "compute_missing_duration os =
     (case sequence (map (\<lambda>r. sub_datetime (outage_end_time r) (outage_start_time r)) os) of
        Inl e \<Rightarrow> Inl e
      | Inr tds \<Rightarrow>
          Inr (map (\<lambda>(r, td). if outage_duration_mins r = NaN
                              then r\<lparr>outage_duration_mins := float_div (total_seconds td) 60\<rparr>
                              else r) (zip os tds)))"

definition handle_missing_values :: "(float64 list \<Rightarrow> float64) \<Rightarrow> tables \<Rightarrow> error + tables" where
  "handle_missing_values series_sum d =
     (case compute_missing_duration (outages d) of
        Inl e \<Rightarrow> Inl e
      | Inr os \<Rightarrow>
          Inr (d\<lparr>usage := impute_usage series_sum (usage d),
                 billing := flag_missing_payment (billing d),
                 tickets := flag_missing_resolution (tickets d),
                 outages := os\<rparr>))"

section \<open>Stage 4: \<^verbatim>\<open>handle_outliers\<close>\<close>

definition cap_usage :: "usage_record list \<Rightarrow> usage_record list" where
  "cap_usage us =
     map (\<lambda>u. if gt_const (data_usage_gb u) 100 then u\<lparr>data_usage_gb := Finite 100\<rparr> else u)
       (map (\<lambda>u. u\<lparr>usage_outlier_flag := Some (gt_const (data_usage_gb u) 100)\<rparr>) us)"

definition flag_extreme_bills :: "billing_record list \<Rightarrow> billing_record list" where
  "flag_extreme_bills bs =
     map (\<lambda>b. if gt_const (bill_amount b) 2000
               then b\<lparr>billing_data_quality_flag := Some True\<rparr> else b) bs"

definition flag_extreme_outages :: "outage_record list \<Rightarrow> outage_record list" where
  "flag_extreme_outages os =
     map (\<lambda>r. r\<lparr>outage_outlier_flag := Some (gt_const (outage_duration_mins r) 1440)\<rparr>) os"

definition handle_outliers :: "tables \<Rightarrow> tables" where
  "handle_outliers d =
     d\<lparr>usage := cap_usage (usage d),
       billing := flag_extreme_bills (billing d),
       outages := flag_extreme_outages (outages d)\<rparr>"

section \<open>Stage 5: \<^verbatim>\<open>fix_impossible_values\<close>\<close>

definition remove_negative_bills :: "billing_record list \<Rightarrow> billing_record list" where
  "remove_negative_bills bs = filter (\<lambda>b. ge_const (bill_amount b) 0) bs"

definition fix_ticket_dates :: "ticket list \<Rightarrow> ticket list" where
  "fix_ticket_dates ts =
     map (\<lambda>t. if resolution_date t = None \<and> ticket_status t = ''Resolved''
               then t\<lparr>ticket_status := ''In Progress''\<rparr> else t)
       (map (\<lambda>t. if date_before (resolution_date t) (ticket_date t)
                 then t\<lparr>resolution_date := None\<rparr> else t) ts)"

text \<open>
  \<^verbatim>\<open>usage.merge(..., on='subscriber_id')\<close> with the \<^verbatim>\<open>subscriber_id\<close> and
  \<^verbatim>\<open>activation_date\<close> columns of the subscriber table is an inner join: one merged row
  for every pair of a usage row and a subscriber row with the same \<^verbatim>\<open>subscriber_id\<close>.
  A merged row is the usage row with the subscriber's \<^verbatim>\<open>activation_date\<close>.
\<close>

definition usage_merged :: "usage_record list \<Rightarrow> subscriber list \<Rightarrow> (usage_record \<times> timestamp) list" where
  "usage_merged us ss =
     concat (map (\<lambda>u. map (\<lambda>s. (u, activation_date s))
                        (filter (\<lambda>s. subscriber_id s = usage_subscriber_id u) ss)) us)"

definition valid_usage_ids :: "usage_record list \<Rightarrow> subscriber list \<Rightarrow> string list" where
  "valid_usage_ids us ss =
     map (\<lambda>(u, a). usage_id u) (filter (\<lambda>(u, a). a \<le> usage_date u) (usage_merged us ss))"

definition remove_usage_before_activation :: "usage_record list \<Rightarrow> subscriber list \<Rightarrow> usage_record list" where
  "remove_usage_before_activation us ss =
     filter (\<lambda>u. usage_id u \<in> set (valid_usage_ids us ss)) us"

definition fix_impossible_values :: "tables \<Rightarrow> tables" where
  "fix_impossible_values d =
     d\<lparr>billing := remove_negative_bills (billing d),
       tickets := fix_ticket_dates (tickets d),
       usage := remove_usage_before_activation (usage d) (subscribers d)\<rparr>"

section \<open>The pipeline of \<^verbatim>\<open>main\<close>\<close>

text \<open>
  \<open>before_missing_values d\<close> is what the first two stages make of the loaded tables \<open>d\<close>,
  \<open>before_fix\<close> what the first four make of them, the tables the last stage receives, and
  \<open>main\<close> what the script saves. An exception of the third stage ends the run: nothing
  is saved.
\<close>

definition before_missing_values :: "tables \<Rightarrow> tables" where
  "before_missing_values d = standardize_labels (remove_duplicates d)"

definition before_fix :: "(float64 list \<Rightarrow> float64) \<Rightarrow> tables \<Rightarrow> error + tables" where
  "before_fix series_sum d =
     (case handle_missing_values series_sum (before_missing_values d) of
        Inl e \<Rightarrow> Inl e
      | Inr d3 \<Rightarrow> Inr (handle_outliers d3))"

definition main :: "(float64 list \<Rightarrow> float64) \<Rightarrow> tables \<Rightarrow> error + tables" where
  "main series_sum d =
     (case before_fix series_sum d of
        Inl e \<Rightarrow> Inl e
      | Inr d4 \<Rightarrow> Inr (fix_impossible_values d4))"

section \<open>Notions of the specification\<close>

text \<open>
  What the specification says of the stages, in its own words; the theorems below compare
  the stages with these.

  The Deduplicator keeps, for every key value, the first input row with that key and
  nothing else: the output rows with key \<open>k\<close> are exactly that one row when the key occurs
  in the input, and none when it does not.
\<close>

definition first_row_per_key :: "('a \<Rightarrow> 'k) \<Rightarrow> 'a list \<Rightarrow> 'a list \<Rightarrow> bool" where
  "first_row_per_key key rs out \<longleftrightarrow>
     (\<forall>k. filter (\<lambda>r. key r = k) out =
            (case find (\<lambda>r. key r = k) rs of None \<Rightarrow> [] | Some r \<Rightarrow> [r]))"

text \<open>
  Data is already canonical when no label is one of the variants of the synonym tables.
\<close>

definition canonical_labels :: "tables \<Rightarrow> bool" where
  "canonical_labels d \<longleftrightarrow>
     list_all (\<lambda>s. map_of plan_type_mapping (plan_type s) = None \<and>
                    map_of city_mapping (city s) = None) (subscribers d) \<and>
     list_all (\<lambda>t. map_of status_mapping (ticket_status t) = None) (tickets d)"

text \<open>
  The arithmetic mean of numbers, and the non-missing \<^verbatim>\<open>data_usage_gb\<close> values of a
  subscriber. The value the Missing-Value Resolver imputes for a subscriber is the
  \<^verbatim>\<open>float64\<close> mean of these: their sum as \<open>series_sum\<close> computes it, divided by their number
  and rounded; it is 0 when the subscriber has no such value, or when that mean is
  \<open>NaN\<close>.
\<close>

definition arithmetic_mean :: "rat list \<Rightarrow> rat" where
  "arithmetic_mean xs = sum_list xs / of_nat (length xs)"

definition present_values :: "usage_record list \<Rightarrow> string option \<Rightarrow> float64 list" where
  "present_values us sub_id =
     map data_usage_gb
       (filter (\<lambda>u. usage_subscriber_id u = sub_id \<and> data_usage_gb u \<noteq> NaN) us)"

definition float64_mean :: "(float64 list \<Rightarrow> float64) \<Rightarrow> float64 list \<Rightarrow> float64" where
  "float64_mean series_sum vs = float_div (series_sum vs) (of_nat (length vs))"

definition imputed_value :: "(float64 list \<Rightarrow> float64) \<Rightarrow> usage_record list \<Rightarrow> string option \<Rightarrow> float64" where
  "imputed_value series_sum us sub_id =
     (let vs = present_values us sub_id
      in if vs = [] \<or> float64_mean series_sum vs = NaN then Finite 0
         else float64_mean series_sum vs)"

text \<open>
  A difference of timestamps fits when it is a 64-bit integer, and an outage fits when
  its end and start are both present only with a difference that fits. The time from \<open>t0\<close> to
  \<open>t1\<close> in minutes, as \<^verbatim>\<open>float64\<close> arithmetic gives it: the count of nanoseconds rounded,
  divided by \<^verbatim>\<open>10**9\<close> and rounded, divided by 60 and rounded. It is missing when one of
  the two is missing or the difference is the least 64-bit integer.
\<close>

definition fits_int64 :: "int \<Rightarrow> bool" where
  "fits_int64 n \<longleftrightarrow> - 9223372036854775808 \<le> n \<and> n \<le> 9223372036854775807"

definition outage_fits :: "outage_record \<Rightarrow> bool" where
  "outage_fits r =
     (case outage_end_time r of None \<Rightarrow> True
      | Some x \<Rightarrow>
          (case outage_start_time r of None \<Rightarrow> True | Some y \<Rightarrow> fits_int64 (x - y)))"

definition minutes_between :: "timestamp option \<Rightarrow> timestamp option \<Rightarrow> float64" where
  "minutes_between t0 t1 =
     (case t0 of None \<Rightarrow> NaN
      | Some a \<Rightarrow>
          (case t1 of None \<Rightarrow> NaN
           | Some b \<Rightarrow>
               if b - a = - 9223372036854775808 then NaN
               else float_div (float_div (round_float64 (of_int (b - a))) 1000000000) 60))"

section \<open>Instances of the five tables\<close>

text \<open>
  The scenarios of the specification put into one set of tables: subscriber
  \<^verbatim>\<open>SUB000001\<close> listed twice, usage rows with the values 10 and 20 and a missing one, a usage
  row before the activation date, one of an unknown subscriber and one without a
  subscriber, bills with a negative, a missing and an extreme amount, tickets resolved
  before they were opened or without a resolution date, and outages with a missing and
  an extreme duration and one without an end time.
\<close>

definition usage_row :: "string \<Rightarrow> string option \<Rightarrow> timestamp \<Rightarrow> float64 \<Rightarrow> usage_record" where
  "usage_row uid sid day gb =
     \<lparr>usage_id = uid, usage_subscriber_id = sid, usage_date = day, data_usage_gb = gb,
      call_minutes = 120, sms_count = 7, roaming_charges = Finite 0,
      usage_outlier_flag = None\<rparr>"

definition billing_row :: "string \<Rightarrow> float64 \<Rightarrow> string \<Rightarrow> timestamp option \<Rightarrow> billing_record" where
  "billing_row bid amount pstatus paid =
     \<lparr>bill_id = bid, billing_subscriber_id = ''SUB000001'', bill_date = 300, due_date = 315,
      bill_amount = amount, payment_status = pstatus, payment_date = paid,
      billing_data_quality_flag = None\<rparr>"

definition ticket_row :: "string \<Rightarrow> string \<Rightarrow> timestamp \<Rightarrow> timestamp option \<Rightarrow> ticket" where
  "ticket_row tid tstatus day resolved =
     \<lparr>ticket_id = tid, ticket_subscriber_id = ''SUB000001'', ticket_date = day,
      ticket_category = ''Billing Query'', ticket_status = tstatus,
      ticket_channel = ''App'', resolution_date = resolved, ticket_data_quality_flag = None\<rparr>"

definition outage_row :: "string \<Rightarrow> timestamp option \<Rightarrow> timestamp option \<Rightarrow> float64 \<Rightarrow> outage_record" where
  "outage_row oid t0 t1 mins =
     \<lparr>outage_id = oid, affected_city = ''Dubai'', outage_type = ''Fiber Cut'',
      outage_start_time = t0, outage_end_time = t1, outage_duration_mins = mins,
      affected_subscribers = 250, outage_outlier_flag = None\<rparr>"

definition subscriber_row :: "string \<Rightarrow> string \<Rightarrow> string \<Rightarrow> timestamp \<Rightarrow> subscriber" where
  "subscriber_row sid town plan day =
     \<lparr>subscriber_id = Some sid, city = town, plan_type = plan, plan_name = ''Basic'',
      monthly_charge = Finite 75, activation_date = day, status = ''Active'',
      churn_date = None\<rparr>"

definition scenario_tables :: tables where
  "scenario_tables =
     \<lparr>subscribers =
        [subscriber_row ''SUB000001'' ''DUBAI'' ''prepaid'' 100,
         subscriber_row ''SUB000002'' ''Al Ain'' ''Postpaid'' 150,
         subscriber_row ''SUB000001'' ''Dubai'' ''Prepaid'' 900],
      usage =
        [usage_row ''USG0000001'' (Some ''SUB000001'') 200 (Finite 10),
         usage_row ''USG0000002'' (Some ''SUB000001'') 210 NaN,
         usage_row ''USG0000003'' (Some ''SUB000001'') 220 (Finite 20),
         usage_row ''USG0000004'' (Some ''SUB000002'') 50 NaN,
         usage_row ''USG0000005'' (Some ''SUB000009'') 230 (Finite 640),
         usage_row ''USG0000001'' (Some ''SUB000002'') 240 (Finite 3),
         usage_row ''USG0000006'' None 250 NaN],
      billing =
        [billing_row ''BILL0000001'' (Finite (- 50)) ''Paid'' (Some 310),
         billing_row ''BILL0000002'' (Finite 5200) ''Pending'' None,
         billing_row ''BILL0000003'' NaN ''Overdue'' None,
         billing_row ''BILL0000004'' (Finite 80) ''Paid'' None,
         billing_row ''BILL0000005'' (Finite 90) ''Paid'' (Some 312)],
      tickets =
        [ticket_row ''TKT0000001'' ''Resolved'' 500 (Some 400),
         ticket_row ''TKT0000002'' ''Closed'' 500 None,
         ticket_row ''TKT0000003'' ''OPEN'' 510 None,
         ticket_row ''TKT0000004'' ''Resolved'' 520 (Some 530)],
      outages =
        [outage_row ''OUT00001'' (Some 0) (Some 1800000000000) NaN,
         outage_row ''OUT00002'' (Some 0) (Some 120000000000000) (Finite 2000),
         outage_row ''OUT00003'' (Some 0) (Some 600000000000) (Finite 10),
         outage_row ''OUT00004'' (Some 0) None NaN]\<rparr>"

text \<open>
  A subscriber with the values 1, 1 and 2 and one missing row; a usage row and an outage
  that lack what the imputation needs; and an outage from the last to the first
  nanosecond a timestamp can hold.
\<close>

definition thirds_tables :: tables where
  "thirds_tables =
     \<lparr>subscribers = [],
      usage =
        [usage_row ''USG0000001'' (Some ''SUB000001'') 200 (Finite 1),
         usage_row ''USG0000002'' (Some ''SUB000001'') 210 (Finite 1),
         usage_row ''USG0000003'' (Some ''SUB000001'') 220 (Finite 2),
         usage_row ''USG0000004'' (Some ''SUB000001'') 230 NaN],
      billing = [], tickets = [], outages = []\<rparr>"

definition incomplete_tables :: tables where
  "incomplete_tables =
     \<lparr>subscribers = [],
      usage = [usage_row ''USG0000001'' None 200 NaN],
      billing = [], tickets = [],
      outages = [outage_row ''OUT00001'' (Some 0) None NaN]\<rparr>"

definition overflow_tables :: tables where
  "overflow_tables =
     \<lparr>subscribers = [], usage = [], billing = [], tickets = [],
      outages =
        [outage_row ''OUT00001'' (Some 9223372036854775807) (Some (- 9223372036854775807))
           (Finite 5)]\<rparr>"

section \<open>The Deduplicator\<close>

lemma filter_drop_duplicates_from:
  "filter (\<lambda>r. key r = k) (drop_duplicates_from key seen rs) =
     (if k \<in> set seen then []
      else case find (\<lambda>r. key r = k) rs of None \<Rightarrow> [] | Some r \<Rightarrow> [r])"
proof (induction rs arbitrary: seen)
  case Nil
  show ?case by simp
next
  case (Cons a rs)
  show ?case
  proof (cases "key a \<in> set seen")
    case True
    then show ?thesis using Cons.IH [of seen] by auto
  next
    case False
    then show ?thesis using Cons.IH [of "key a # seen"] by auto
  qed
qed

lemma first_row_per_key_drop_duplicates:
  "first_row_per_key key rs (drop_duplicates key rs)"
  by (simp add: first_row_per_key_def drop_duplicates_def filter_drop_duplicates_from)

lemma keys_drop_duplicates_from:
  "set (map key (drop_duplicates_from key seen rs)) = set (map key rs) - set seen"
  by (induction rs arbitrary: seen) auto

lemma distinct_drop_duplicates_from:
  "distinct (map key (drop_duplicates_from key seen rs))"
  by (induction rs arbitrary: seen) (auto simp: keys_drop_duplicates_from simp del: set_map)

lemma distinct_drop_duplicates: "distinct (map key (drop_duplicates key rs))"
  by (simp add: drop_duplicates_def distinct_drop_duplicates_from)

lemma drop_duplicates_Nil: "drop_duplicates key [] = []"
  by (simp add: drop_duplicates_def)

text \<open>
  Claim C7. For each of the five tables and its key column, the output of
  \<open>remove_duplicates\<close> holds, for every key value of the input, exactly one row with that
  key, namely the first input row that has it, and no row with any other key. An empty
  table stays empty and counts zero removed rows.
\<close>

theorem remove_duplicates_first_row_per_key:
  "first_row_per_key subscriber_id (subscribers d) (subscribers (remove_duplicates d)) \<and>
   first_row_per_key usage_id (usage d) (usage (remove_duplicates d)) \<and>
   first_row_per_key bill_id (billing d) (billing (remove_duplicates d)) \<and>
   first_row_per_key ticket_id (tickets d) (tickets (remove_duplicates d)) \<and>
   first_row_per_key outage_id (outages d) (outages (remove_duplicates d)) \<and>
   drop_duplicates key [] = [] \<and> removed_count key [] = 0"
  by (simp add: remove_duplicates_def first_row_per_key_drop_duplicates
      drop_duplicates_Nil removed_count_def)

section \<open>The Label Canonicalizer\<close>

lemma replace_twice:
  assumes "\<forall>(k, c) \<in> set m. map_of m c = None"
  shows "replace m (replace m v) = replace m v"
proof (cases "map_of m v")
  case None
  then show ?thesis by (simp add: replace_def)
next
  case (Some c)
  then have "(v, c) \<in> set m" by (rule map_of_SomeD)
  with assms have "map_of m c = None" by auto
  with Some show ?thesis by (simp add: replace_def)
qed

lemma replace_unmapped: "map_of m v = None \<Longrightarrow> replace m v = v"
  by (simp add: replace_def)

lemma map_of_replace:
  assumes "\<forall>(k, c) \<in> set m. map_of m c = None"
  shows "map_of m (replace m v) = None"
proof (cases "map_of m v")
  case None
  then show ?thesis by (simp add: replace_def)
next
  case (Some c)
  then have "(v, c) \<in> set m" by (rule map_of_SomeD)
  with assms have "map_of m c = None" by auto
  with Some show ?thesis by (simp add: replace_def)
qed

lemma plan_type_values_canonical: "\<forall>(k, c) \<in> set plan_type_mapping. map_of plan_type_mapping c = None"
  by (simp add: plan_type_mapping_def)

lemma city_values_canonical: "\<forall>(k, c) \<in> set city_mapping. map_of city_mapping c = None"
  by (simp add: city_mapping_def)

lemma status_values_canonical: "\<forall>(k, c) \<in> set status_mapping. map_of status_mapping c = None"
  by (simp add: status_mapping_def)

lemma standardize_labels_twice:
  "standardize_labels (standardize_labels d) = standardize_labels d"
  by (simp add: standardize_labels_def o_def
      replace_twice [OF plan_type_values_canonical]
      replace_twice [OF city_values_canonical]
      replace_twice [OF status_values_canonical])

lemma canonical_standardize_labels: "canonical_labels (standardize_labels d)"
  by (simp add: canonical_labels_def standardize_labels_def list_all_iff
      map_of_replace [OF plan_type_values_canonical]
      map_of_replace [OF city_values_canonical]
      map_of_replace [OF status_values_canonical])

lemma standardize_labels_canonical:
  assumes "canonical_labels d"
  shows "standardize_labels d = d"
proof -
  have s: "map (\<lambda>s. s\<lparr>city := replace city_mapping (city s)\<rparr>)
            (map (\<lambda>s. s\<lparr>plan_type := replace plan_type_mapping (plan_type s)\<rparr>)
               (subscribers d)) = subscribers d"
    using assms
    by (auto simp: canonical_labels_def list_all_iff replace_unmapped o_def intro!: map_idI)
  have t: "map (\<lambda>t. t\<lparr>ticket_status := replace status_mapping (ticket_status t)\<rparr>) (tickets d)
             = tickets d"
    using assms by (auto simp: canonical_labels_def list_all_iff replace_unmapped intro!: map_idI)
  show ?thesis unfolding standardize_labels_def s t by simp
qed

text \<open>
  Claim C6. Label canonicalization is idempotent: run on its own output,
  \<open>standardize_labels\<close> returns that output, for every state of the tables. Its output
  is canonical, and on tables that are canonical already it changes nothing.
\<close>

theorem standardize_labels_idempotent:
  "standardize_labels (standardize_labels d) = standardize_labels d \<and>
   canonical_labels (standardize_labels d) \<and>
   (canonical_labels d \<longrightarrow> standardize_labels d = d)"
  by (simp add: standardize_labels_twice canonical_standardize_labels
      standardize_labels_canonical)

theorem standardize_labels_idempotent_witness:
  "canonical_labels (before_missing_values scenario_tables) \<and>
   standardize_labels (before_missing_values scenario_tables) =
     before_missing_values scenario_tables \<and>
   \<not> canonical_labels scenario_tables \<and>
   standardize_labels scenario_tables \<noteq> scenario_tables"
proof -
  have c: "canonical_labels (before_missing_values scenario_tables)" by code_simp
  have n: "\<not> canonical_labels scenario_tables" by code_simp
  have m: "standardize_labels scenario_tables \<noteq> scenario_tables" by code_simp
  from standardize_labels_idempotent [of "before_missing_values scenario_tables"] c
  have "standardize_labels (before_missing_values scenario_tables) =
     before_missing_values scenario_tables" by blast
  with c n m show ?thesis by simp
qed

section \<open>Facts of \<^verbatim>\<open>float64\<close> arithmetic\<close>

lemma float64_overflow_eq: "float64_overflow = 2 ^ 1024"
  by (simp add: float64_overflow_def)

lemma round_float64_not_NaN: "round_float64 x \<noteq> NaN"
  by (simp add: round_float64_def Let_def)

lemma float_div_NaN_iff: "float_div x c = NaN \<longleftrightarrow> x = NaN"
  by (cases x) (simp_all add: float_div_def round_float64_not_NaN)

lemma mean_15: "float64_mean float64_sum [Finite 10, Finite 20] = Finite 15"
  by code_simp

lemma gt_const_iff: "gt_const v c \<longleftrightarrow> (\<exists>x. v = Finite x \<and> c < x) \<or> v = PosInf"
  by (cases v) (simp_all add: gt_const_def)

lemma ge_const_iff: "ge_const v c \<longleftrightarrow> (\<exists>x. v = Finite x \<and> c \<le> x) \<or> v = PosInf"
  by (cases v) (simp_all add: ge_const_def)

lemma date_before_iff: "date_before r t \<longleftrightarrow> (\<exists>x. r = Some x \<and> x < t)"
  by (simp add: date_before_def split: option.splits)

section \<open>The Missing-Value Resolver\<close>

lemma set_unique: "set (unique xs) = set xs"
  using keys_drop_duplicates_from [of "\<lambda>x. x" "[]" xs]
  by (simp add: unique_def drop_duplicates_def)

lemma eq_cell_Some: "eq_cell a (Some s) \<longleftrightarrow> a = Some s"
  by (cases a) (simp_all add: eq_cell_def)

lemma eq_cell_None: "\<not> eq_cell a None"
  by (cases a) (simp_all add: eq_cell_def)

lemma imputed_value_not_NaN: "imputed_value series_sum us sid \<noteq> NaN"
  by (simp add: imputed_value_def Let_def)

lemma filter_present_values:
  "filter (\<lambda>v. v \<noteq> NaN) (present_values us sid) = present_values us sid"
  unfolding present_values_def by (induction us) auto

lemma sub_avg_Some:
  "sub_avg series_sum us (Some s) =
     (if present_values us (Some s) = [] then NaN
      else float64_mean series_sum (present_values us (Some s)))"
proof -
  have "map data_usage_gb
      (filter (\<lambda>u. eq_cell (usage_subscriber_id u) (Some s) \<and> data_usage_gb u \<noteq> NaN) us)
    = present_values us (Some s)"
    by (simp add: present_values_def eq_cell_Some)
  then show ?thesis
    by (simp add: sub_avg_def mean_def filter_present_values float64_mean_def Let_def)
qed

lemma impute_subscriber_Some:
  "impute_subscriber series_sum us (Some s) =
     assign_missing_usage us (Some s) (imputed_value series_sum us (Some s))"
  by (simp add: impute_subscriber_def sub_avg_Some imputed_value_def Let_def)

lemma impute_subscriber_None: "impute_subscriber series_sum us None = us"
  by (simp add: impute_subscriber_def assign_missing_usage_def eq_cell_None Let_def)

lemma present_values_assign:
  "sid \<noteq> Some s \<Longrightarrow>
     present_values (assign_missing_usage us (Some s) v) sid = present_values us sid"
  by (induction us) (auto simp: present_values_def assign_missing_usage_def eq_cell_Some)

lemma imputed_value_assign:
  "sid \<noteq> Some s \<Longrightarrow>
     imputed_value series_sum (assign_missing_usage us (Some s) v) sid =
     imputed_value series_sum us sid"
  by (simp add: imputed_value_def present_values_assign)

text \<open>
  The loop invariant: after the ids \<open>ids\<close> have been gone through, the missing cells of
  exactly the subscribers among them hold the value computed from the table the loop
  started with. Imputing one subscriber leaves the present values of every other one as
  they were, and the missing id selects no row.
\<close>

lemma foldl_impute_subscriber:
  "foldl (impute_subscriber series_sum) us ids =
     map (\<lambda>u. if data_usage_gb u = NaN \<and> usage_subscriber_id u \<noteq> None \<and>
                  usage_subscriber_id u \<in> set ids
               then u\<lparr>data_usage_gb := imputed_value series_sum us (usage_subscriber_id u)\<rparr>
               else u) us"
proof (induction ids arbitrary: us)
  case Nil
  show ?case by (simp add: map_idI)
next
  case (Cons sid ids)
  show ?case
  proof (cases sid)
    case None
    have "foldl (impute_subscriber series_sum) us (sid # ids) =
        foldl (impute_subscriber series_sum) us ids"
      by (simp add: None impute_subscriber_None)
    also have "\<dots> = map (\<lambda>u. if data_usage_gb u = NaN \<and> usage_subscriber_id u \<noteq> None \<and>
                  usage_subscriber_id u \<in> set ids
               then u\<lparr>data_usage_gb := imputed_value series_sum us (usage_subscriber_id u)\<rparr>
               else u) us"
      by (rule Cons.IH)
    also have "\<dots> = map (\<lambda>u. if data_usage_gb u = NaN \<and> usage_subscriber_id u \<noteq> None \<and>
                  usage_subscriber_id u \<in> set (sid # ids)
               then u\<lparr>data_usage_gb := imputed_value series_sum us (usage_subscriber_id u)\<rparr>
               else u) us"
      by (rule map_cong) (auto simp: None)
    finally show ?thesis .
  next
    case (Some s)
    define v where "v = imputed_value series_sum us (Some s)"
    define us1 where "us1 = assign_missing_usage us (Some s) v"
    define f1 where "f1 = imputed_value series_sum us1"
    have v: "v \<noteq> NaN" by (simp add: v_def imputed_value_not_NaN)
    have f1: "f1 sid' = imputed_value series_sum us sid'" if "sid' \<noteq> Some s" for sid'
      using that by (simp add: f1_def us1_def imputed_value_assign)
    have us1: "us1 = map (\<lambda>u. if usage_subscriber_id u = Some s \<and> data_usage_gb u = NaN
               then u\<lparr>data_usage_gb := v\<rparr> else u) us"
      by (simp add: us1_def assign_missing_usage_def eq_cell_Some)
    have "foldl (impute_subscriber series_sum) us (sid # ids) =
        foldl (impute_subscriber series_sum) us1 ids"
      by (simp add: Some impute_subscriber_Some us1_def v_def)
    also have "\<dots> = map (\<lambda>u. if data_usage_gb u = NaN \<and> usage_subscriber_id u \<noteq> None \<and>
                  usage_subscriber_id u \<in> set ids
               then u\<lparr>data_usage_gb := f1 (usage_subscriber_id u)\<rparr>
               else u) us1"
      unfolding f1_def by (rule Cons.IH)
    also have "\<dots> = map (\<lambda>u. if data_usage_gb u = NaN \<and> usage_subscriber_id u \<noteq> None \<and>
                  usage_subscriber_id u \<in> set (sid # ids)
               then u\<lparr>data_usage_gb := imputed_value series_sum us (usage_subscriber_id u)\<rparr>
               else u) us"
      unfolding us1 map_map
      by (rule map_cong) (auto simp: f1 v Some v_def [symmetric])
    finally show ?thesis .
  qed
qed

lemma impute_usage_eq:
  "impute_usage series_sum us =
     map (\<lambda>u. if data_usage_gb u = NaN \<and> usage_subscriber_id u \<noteq> None
               then u\<lparr>data_usage_gb := imputed_value series_sum us (usage_subscriber_id u)\<rparr>
               else u) us"
  unfolding impute_usage_def foldl_impute_subscriber set_unique
  by (rule map_cong) auto

lemma impute_usage_present:
  "u \<in> set (impute_usage series_sum us) \<Longrightarrow> usage_subscriber_id u \<noteq> None \<Longrightarrow>
     data_usage_gb u \<noteq> NaN"
  unfolding impute_usage_eq by (auto simp: imputed_value_not_NaN split: if_splits)

lemma imputed_value_exact_sum:
  assumes "present_values us sid = map Finite xs" and "xs \<noteq> []"
    and "series_sum (map Finite xs) = Finite (sum_list xs)"
  shows "imputed_value series_sum us sid = round_float64 (arithmetic_mean xs)"
  using assms
  by (simp add: imputed_value_def float64_mean_def float_div_def arithmetic_mean_def
      round_float64_not_NaN Let_def)

text \<open>The column subtraction returns when every row fits, and only then.\<close>

lemma sequence_returns: "(\<exists>vs. sequence xs = Inr vs) \<longleftrightarrow> (\<forall>x \<in> set xs. \<exists>v. x = Inr v)"
proof (induction xs)
  case Nil
  show ?case by simp
next
  case (Cons x xs)
  show ?case
    using Cons.IH by (cases x; cases "sequence xs") auto
qed

lemma sub_datetime_minutes:
  "sub_datetime a b = Inr td \<Longrightarrow> float_div (total_seconds td) 60 = minutes_between b a"
  by (auto simp: sub_datetime_def total_seconds_def minutes_between_def float_div_def
      split: option.splits if_splits)

lemma assign_durations:
  "sequence (map (\<lambda>r. sub_datetime (outage_end_time r) (outage_start_time r)) os) = Inr tds \<Longrightarrow>
     map (\<lambda>(r, td). if outage_duration_mins r = NaN
                     then r\<lparr>outage_duration_mins := float_div (total_seconds td) 60\<rparr>
                     else r) (zip os tds) =
     map (\<lambda>r. if outage_duration_mins r = NaN
               then r\<lparr>outage_duration_mins :=
                      minutes_between (outage_start_time r) (outage_end_time r)\<rparr>
               else r) os"
proof (induction os arbitrary: tds)
  case Nil
  then show ?case by simp
next
  case (Cons r os)
  from Cons.prems obtain td tds' where tds: "tds = td # tds'"
    and td: "sub_datetime (outage_end_time r) (outage_start_time r) = Inr td"
    and rest: "sequence (map (\<lambda>r. sub_datetime (outage_end_time r) (outage_start_time r)) os)
        = Inr tds'"
    by (auto split: sum.splits)
  from Cons.IH [OF rest] sub_datetime_minutes [OF td] show ?case
    by (simp add: tds)
qed

lemma compute_missing_duration_eq:
  "compute_missing_duration os = Inr os' \<Longrightarrow>
     os' = map (\<lambda>r. if outage_duration_mins r = NaN
                    then r\<lparr>outage_duration_mins :=
                           minutes_between (outage_start_time r) (outage_end_time r)\<rparr>
                    else r) os"
  unfolding compute_missing_duration_def
  by (auto split: sum.splits dest: assign_durations)

lemma sub_datetime_fits:
  "(\<exists>td. sub_datetime (outage_end_time r) (outage_start_time r) = Inr td) \<longleftrightarrow> outage_fits r"
  by (cases "outage_end_time r"; cases "outage_start_time r")
    (auto simp: outage_fits_def sub_datetime_def fits_int64_def)

lemma compute_missing_duration_returns:
  "(\<exists>os'. compute_missing_duration os = Inr os') \<longleftrightarrow> (\<forall>r \<in> set os. outage_fits r)"
proof -
  have "(\<exists>os'. compute_missing_duration os = Inr os') \<longleftrightarrow>
      (\<exists>tds. sequence (map (\<lambda>r. sub_datetime (outage_end_time r) (outage_start_time r)) os)
         = Inr tds)"
    unfolding compute_missing_duration_def by (auto split: sum.splits)
  also have "\<dots> \<longleftrightarrow> (\<forall>r \<in> set os. outage_fits r)"
    unfolding sequence_returns by (simp add: sub_datetime_fits)
  finally show ?thesis .
qed

lemma handle_missing_values_Inr:
  assumes "handle_missing_values series_sum d = Inr out"
  shows "subscribers out = subscribers d"
    and "usage out = impute_usage series_sum (usage d)"
    and "billing out = flag_missing_payment (billing d)"
    and "tickets out = flag_missing_resolution (tickets d)"
    and "compute_missing_duration (outages d) = Inr (outages out)"
  using assms unfolding handle_missing_values_def by (auto split: sum.splits)

lemma handle_missing_values_returns:
  "(\<exists>out. handle_missing_values series_sum d = Inr out) \<longleftrightarrow>
     (\<forall>r \<in> set (outages d). outage_fits r)"
  unfolding compute_missing_duration_returns [symmetric] handle_missing_values_def
  by (auto split: sum.splits)

lemma minutes_between_present:
  "t1 - t0 \<noteq> - 9223372036854775808 \<Longrightarrow> minutes_between (Some t0) (Some t1) \<noteq> NaN"
  by (simp add: minutes_between_def float_div_NaN_iff round_float64_not_NaN)

text \<open>
  Claim C2, as the code has it. When \<open>handle_missing_values\<close> returns, the usage table
  is the input usage table with every row that has a value, and every row without a
  \<^verbatim>\<open>subscriber_id\<close>, left as it is, and every other row with a missing \<^verbatim>\<open>data_usage_gb\<close>
  given the \<^verbatim>\<open>float64\<close> mean of the non-missing values of the same subscriber in the
  input, or 0 when that subscriber has none or the mean is \<open>NaN\<close>. Where the sum of the
  values is computed exactly, that mean is the arithmetic mean rounded to \<^verbatim>\<open>float64\<close>.
  For a subscriber with the values 10 and 20 and one missing row, summed from left to
  right, the missing row becomes 15.
\<close>

theorem handle_missing_values_imputes_subscriber_mean:
  "(handle_missing_values series_sum d = Inr out \<longrightarrow>
      usage out =
        map (\<lambda>u. if data_usage_gb u = NaN \<and> usage_subscriber_id u \<noteq> None
                  then u\<lparr>data_usage_gb :=
                         imputed_value series_sum (usage d) (usage_subscriber_id u)\<rparr>
                  else u) (usage d)) \<and>
   (present_values (usage d) sid = map Finite xs \<and> xs \<noteq> [] \<and>
    series_sum (map Finite xs) = Finite (sum_list xs) \<longrightarrow>
      imputed_value series_sum (usage d) sid = round_float64 (arithmetic_mean xs)) \<and>
   (handle_missing_values float64_sum
      (d\<lparr>usage := [u1\<lparr>usage_subscriber_id := Some ''SUB000001'', data_usage_gb := Finite 10\<rparr>,
                   u2\<lparr>usage_subscriber_id := Some ''SUB000001'', data_usage_gb := Finite 20\<rparr>,
                   u3\<lparr>usage_subscriber_id := Some ''SUB000001'', data_usage_gb := NaN\<rparr>]\<rparr>)
      = Inr out' \<longrightarrow>
      map data_usage_gb (usage out') = [Finite 10, Finite 20, Finite 15])"
proof (intro conjI impI)
  assume "handle_missing_values series_sum d = Inr out"
  then show "usage out =
        map (\<lambda>u. if data_usage_gb u = NaN \<and> usage_subscriber_id u \<noteq> None
                  then u\<lparr>data_usage_gb :=
                         imputed_value series_sum (usage d) (usage_subscriber_id u)\<rparr>
                  else u) (usage d)"
    by (simp add: handle_missing_values_Inr(2) impute_usage_eq)
next
  assume "present_values (usage d) sid = map Finite xs \<and> xs \<noteq> [] \<and>
    series_sum (map Finite xs) = Finite (sum_list xs)"
  then show "imputed_value series_sum (usage d) sid = round_float64 (arithmetic_mean xs)"
    by (simp add: imputed_value_exact_sum)
next
  let ?us = "[u1\<lparr>usage_subscriber_id := Some ''SUB000001'', data_usage_gb := Finite 10\<rparr>,
              u2\<lparr>usage_subscriber_id := Some ''SUB000001'', data_usage_gb := Finite 20\<rparr>,
              u3\<lparr>usage_subscriber_id := Some ''SUB000001'', data_usage_gb := NaN\<rparr>]"
  assume "handle_missing_values float64_sum (d\<lparr>usage := ?us\<rparr>) = Inr out'"
  then have "usage out' = impute_usage float64_sum ?us"
    using handle_missing_values_Inr(2) [of float64_sum "d\<lparr>usage := ?us\<rparr>" out'] by simp
  then show "map data_usage_gb (usage out') = [Finite 10, Finite 20, Finite 15]"
    by (simp add: impute_usage_eq imputed_value_def present_values_def mean_15)
qed

theorem handle_missing_values_imputes_subscriber_mean_witness:
  "handle_missing_values float64_sum scenario_tables =
     Inr (projr (handle_missing_values float64_sum scenario_tables)) \<and>
   map data_usage_gb (usage (projr (handle_missing_values float64_sum scenario_tables))) =
     [Finite 10, Finite 15, Finite 20, Finite 3, Finite 640, Finite 3, NaN] \<and>
   present_values (usage scenario_tables) (Some ''SUB000001'') = map Finite [10, 20] \<and>
   float64_sum (map Finite [10, 20]) = Finite (sum_list [10, 20]) \<and>
   imputed_value float64_sum (usage scenario_tables) (Some ''SUB000001'') =
     round_float64 (arithmetic_mean [10, 20]) \<and>
   round_float64 (arithmetic_mean [10, 20]) = Finite 15"
proof -
  let ?out = "projr (handle_missing_values float64_sum scenario_tables)"
  have r: "handle_missing_values float64_sum scenario_tables = Inr ?out" by code_simp
  have p: "present_values (usage scenario_tables) (Some ''SUB000001'') = map Finite [10, 20]"
    by code_simp
  have s: "float64_sum (map Finite [10, 20]) = Finite (sum_list [10, 20])" by code_simp
  have m: "round_float64 (arithmetic_mean [10, 20]) = Finite 15" by code_simp
  have i: "imputed_value float64_sum (usage scenario_tables) (Some ''SUB000001'') = Finite 15"
    by code_simp
  have v: "map (\<lambda>u. if data_usage_gb u = NaN \<and> usage_subscriber_id u \<noteq> None
                  then u\<lparr>data_usage_gb :=
                         imputed_value float64_sum (usage scenario_tables) (usage_subscriber_id u)\<rparr>
                  else u) (usage scenario_tables) =
      [usage_row ''USG0000001'' (Some ''SUB000001'') 200 (Finite 10),
       usage_row ''USG0000002'' (Some ''SUB000001'') 210 (Finite 15),
       usage_row ''USG0000003'' (Some ''SUB000001'') 220 (Finite 20),
       usage_row ''USG0000004'' (Some ''SUB000002'') 50 (Finite 3),
       usage_row ''USG0000005'' (Some ''SUB000009'') 230 (Finite 640),
       usage_row ''USG0000001'' (Some ''SUB000002'') 240 (Finite 3),
       usage_row ''USG0000006'' None 250 NaN]"
    by code_simp
  note t = handle_missing_values_imputes_subscriber_mean
    [of float64_sum scenario_tables ?out "Some ''SUB000001''" "[10, 20]"]
  from t r have "usage ?out =
      map (\<lambda>u. if data_usage_gb u = NaN \<and> usage_subscriber_id u \<noteq> None
                  then u\<lparr>data_usage_gb :=
                         imputed_value float64_sum (usage scenario_tables) (usage_subscriber_id u)\<rparr>
                  else u) (usage scenario_tables)"
    by blast
  then have "map data_usage_gb (usage ?out) =
     [Finite 10, Finite 15, Finite 20, Finite 3, Finite 640, Finite 3, NaN]"
    unfolding v by (simp add: usage_row_def)
  moreover from t p s
  have "imputed_value float64_sum (usage scenario_tables) (Some ''SUB000001'') =
     round_float64 (arithmetic_mean [10, 20])"
    by simp
  ultimately show ?thesis using r p s m by simp
qed

text \<open>
  The claim as the specification words it fails where the mean is not a \<^verbatim>\<open>float64\<close>:
  for the values 1, 1 and 2 the arithmetic mean is 4/3, and the script, summing from
  left to right, imputes the nearest \<^verbatim>\<open>float64\<close>.
\<close>

theorem arithmetic_mean_counterexample:
  "handle_missing_values float64_sum thirds_tables =
     Inr (thirds_tables\<lparr>usage :=
       [usage_row ''USG0000001'' (Some ''SUB000001'') 200 (Finite 1),
        usage_row ''USG0000002'' (Some ''SUB000001'') 210 (Finite 1),
        usage_row ''USG0000003'' (Some ''SUB000001'') 220 (Finite 2),
        usage_row ''USG0000004'' (Some ''SUB000001'') 230
          (Finite (6004799503160661 / 4503599627370496))]\<rparr>) \<and>
   arithmetic_mean [1, 1, 2] = 4 / 3 \<and>
   Finite (6004799503160661 / 4503599627370496) \<noteq> Finite (arithmetic_mean [1, 1, 2])"
  by code_simp

text \<open>
  Claim C3, as the code has it. \<open>handle_missing_values\<close> returns exactly when every
  outage fits, and raises \<^verbatim>\<open>OverflowError\<close> otherwise. When it returns, no usage row with
  a \<^verbatim>\<open>subscriber_id\<close> has a missing \<^verbatim>\<open>data_usage_gb\<close>; an outage row keeps a duration
  that was present, and gets for a missing one the time from \<^verbatim>\<open>outage_start_time\<close> to
  \<^verbatim>\<open>outage_end_time\<close> in minutes as \<^verbatim>\<open>float64\<close> arithmetic gives it, so that no outage
  row whose start and end are present, and do not differ by the least 64-bit integer,
  has a missing \<^verbatim>\<open>outage_duration_mins\<close>.
\<close>

theorem handle_missing_values_complete:
  "((\<exists>res. handle_missing_values series_sum d = Inr res) \<longleftrightarrow>
      (\<forall>r \<in> set (outages d). outage_fits r)) \<and>
   (handle_missing_values series_sum d = Inr out \<longrightarrow>
      (\<forall>u \<in> set (usage out). usage_subscriber_id u \<noteq> None \<longrightarrow> data_usage_gb u \<noteq> NaN) \<and>
      (\<forall>r \<in> set (outages out). \<forall>t0 t1.
          outage_start_time r = Some t0 \<and> outage_end_time r = Some t1 \<and>
          t1 - t0 \<noteq> - 9223372036854775808 \<longrightarrow> outage_duration_mins r \<noteq> NaN) \<and>
      outages out =
        map (\<lambda>r. if outage_duration_mins r = NaN
                  then r\<lparr>outage_duration_mins :=
                         minutes_between (outage_start_time r) (outage_end_time r)\<rparr>
                  else r) (outages d))"
proof (intro conjI impI)
  show "(\<exists>res. handle_missing_values series_sum d = Inr res) \<longleftrightarrow>
      (\<forall>r \<in> set (outages d). outage_fits r)"
    by (rule handle_missing_values_returns)
next
  assume h: "handle_missing_values series_sum d = Inr out"
  show "\<forall>u \<in> set (usage out). usage_subscriber_id u \<noteq> None \<longrightarrow> data_usage_gb u \<noteq> NaN"
    using impute_usage_present [of _ series_sum "usage d"]
    by (simp add: handle_missing_values_Inr(2) [OF h])
  have os: "outages out =
        map (\<lambda>r. if outage_duration_mins r = NaN
                  then r\<lparr>outage_duration_mins :=
                         minutes_between (outage_start_time r) (outage_end_time r)\<rparr>
                  else r) (outages d)"
    using handle_missing_values_Inr(5) [OF h] by (rule compute_missing_duration_eq)
  then show "outages out =
        map (\<lambda>r. if outage_duration_mins r = NaN
                  then r\<lparr>outage_duration_mins :=
                         minutes_between (outage_start_time r) (outage_end_time r)\<rparr>
                  else r) (outages d)" .
  show "\<forall>r \<in> set (outages out). \<forall>t0 t1.
          outage_start_time r = Some t0 \<and> outage_end_time r = Some t1 \<and>
          t1 - t0 \<noteq> - 9223372036854775808 \<longrightarrow> outage_duration_mins r \<noteq> NaN"
    unfolding os using minutes_between_present by (auto split: if_splits)
qed

theorem handle_missing_values_complete_witness:
  "handle_missing_values float64_sum scenario_tables =
     Inr (projr (handle_missing_values float64_sum scenario_tables)) \<and>
   list_all outage_fits (outages scenario_tables) \<and>
   usage_row ''USG0000004'' (Some ''SUB000002'') 50 (Finite 3)
     \<in> set (usage (projr (handle_missing_values float64_sum scenario_tables))) \<and>
   data_usage_gb (usage_row ''USG0000004'' (Some ''SUB000002'') 50 (Finite 3)) \<noteq> NaN \<and>
   outage_row ''OUT00001'' (Some 0) (Some 1800000000000) (Finite 30)
     \<in> set (outages (projr (handle_missing_values float64_sum scenario_tables))) \<and>
   outage_duration_mins (outage_row ''OUT00001'' (Some 0) (Some 1800000000000) (Finite 30))
     \<noteq> NaN \<and>
   minutes_between (Some 0) (Some 1800000000000) = Finite 30 \<and>
   handle_missing_values float64_sum overflow_tables = Inl OverflowError \<and>
   \<not> list_all outage_fits (outages overflow_tables)"
proof -
  let ?out = "projr (handle_missing_values float64_sum scenario_tables)"
  let ?u = "usage_row ''USG0000004'' (Some ''SUB000002'') 50 (Finite 3)"
  let ?r = "outage_row ''OUT00001'' (Some 0) (Some 1800000000000) (Finite 30)"
  have e: "handle_missing_values float64_sum scenario_tables = Inr ?out" by code_simp
  have f: "list_all outage_fits (outages scenario_tables)" by code_simp
  have u: "?u \<in> set (usage ?out)" by code_simp
  have r: "?r \<in> set (outages ?out)" by code_simp
  have m: "minutes_between (Some 0) (Some 1800000000000) = Finite 30" by code_simp
  have o: "handle_missing_values float64_sum overflow_tables = Inl OverflowError" by code_simp
  have n: "\<not> list_all outage_fits (outages overflow_tables)" by code_simp
  have us: "usage_subscriber_id ?u \<noteq> None" by (simp add: usage_row_def)
  have rs: "outage_start_time ?r = Some 0 \<and> outage_end_time ?r = Some 1800000000000 \<and>
      (1800000000000 :: int) - 0 \<noteq> - 9223372036854775808"
    by (simp add: outage_row_def)
  note t = handle_missing_values_complete [of float64_sum scenario_tables ?out]
  from t e u us have "data_usage_gb ?u \<noteq> NaN" by blast
  moreover from t e r rs have "outage_duration_mins ?r \<noteq> NaN" by blast
  ultimately show ?thesis using e f u r m o n by simp
qed

text \<open>
  The claim as the specification words it fails on a usage row without
  \<^verbatim>\<open>subscriber_id\<close> and on an outage without an end time: the stage returns them as they
  were, their values missing.
\<close>

theorem missing_values_remain_counterexample:
  "handle_missing_values float64_sum incomplete_tables = Inr incomplete_tables \<and>
   map data_usage_gb (usage incomplete_tables) = [NaN] \<and>
   map outage_duration_mins (outages incomplete_tables) = [NaN]"
  by code_simp

section \<open>The Outlier Handler\<close>

lemma cap_usage_eq:
  "cap_usage us =
     map (\<lambda>u. if (\<exists>g. data_usage_gb u = Finite g \<and> 100 < g) \<or> data_usage_gb u = PosInf
               then u\<lparr>data_usage_gb := Finite 100, usage_outlier_flag := Some True\<rparr>
               else u\<lparr>usage_outlier_flag := Some False\<rparr>) us"
  unfolding cap_usage_def map_map
  by (rule map_cong) (auto simp: gt_const_iff)

lemma flag_extreme_bills_eq:
  "flag_extreme_bills bs =
     map (\<lambda>b. if (\<exists>a. bill_amount b = Finite a \<and> 2000 < a) \<or> bill_amount b = PosInf
               then b\<lparr>billing_data_quality_flag := Some True\<rparr> else b) bs"
  by (simp add: flag_extreme_bills_def gt_const_iff)

lemma flag_extreme_outages_eq:
  "flag_extreme_outages os =
     map (\<lambda>r. r\<lparr>outage_outlier_flag :=
                  Some ((\<exists>m. outage_duration_mins r = Finite m \<and> 1440 < m) \<or>
                        outage_duration_mins r = PosInf)\<rparr>) os"
  by (simp add: flag_extreme_outages_def gt_const_iff)

text \<open>
  Claim C8. \<open>handle_outliers\<close> leaves the subscriber and ticket tables as they are.
  A billing row keeps every column but the flag, which becomes true when
  \<^verbatim>\<open>bill_amount\<close> exceeds 2000, so \<^verbatim>\<open>bill_amount\<close> is unchanged. An outage row keeps every
  column but \<^verbatim>\<open>outlier_flag\<close>, which tells whether the duration exceeds 1440, so
  \<^verbatim>\<open>outage_duration_mins\<close> is unchanged. A usage row with \<^verbatim>\<open>data_usage_gb\<close> above 100 gets
  the value 100 and \<^verbatim>\<open>outlier_flag\<close> true; any other usage row keeps its value and gets
  the flag false; the other numeric columns of a usage row are unchanged. A value
  exceeds a threshold when it is a finite number above it or the positive infinity.
\<close>

theorem handle_outliers_changes_only_data_usage_gb:
  "subscribers (handle_outliers d) = subscribers d \<and>
   tickets (handle_outliers d) = tickets d \<and>
   billing (handle_outliers d) =
     map (\<lambda>b. if (\<exists>a. bill_amount b = Finite a \<and> 2000 < a) \<or> bill_amount b = PosInf
               then b\<lparr>billing_data_quality_flag := Some True\<rparr> else b) (billing d) \<and>
   map bill_amount (billing (handle_outliers d)) = map bill_amount (billing d) \<and>
   outages (handle_outliers d) =
     map (\<lambda>r. r\<lparr>outage_outlier_flag :=
                  Some ((\<exists>m. outage_duration_mins r = Finite m \<and> 1440 < m) \<or>
                        outage_duration_mins r = PosInf)\<rparr>) (outages d) \<and>
   map outage_duration_mins (outages (handle_outliers d)) =
     map outage_duration_mins (outages d) \<and>
   map affected_subscribers (outages (handle_outliers d)) =
     map affected_subscribers (outages d) \<and>
   usage (handle_outliers d) =
     map (\<lambda>u. if (\<exists>g. data_usage_gb u = Finite g \<and> 100 < g) \<or> data_usage_gb u = PosInf
               then u\<lparr>data_usage_gb := Finite 100, usage_outlier_flag := Some True\<rparr>
               else u\<lparr>usage_outlier_flag := Some False\<rparr>) (usage d) \<and>
   map call_minutes (usage (handle_outliers d)) = map call_minutes (usage d) \<and>
   map sms_count (usage (handle_outliers d)) = map sms_count (usage d) \<and>
   map roaming_charges (usage (handle_outliers d)) = map roaming_charges (usage d)"
proof -
  have b: "billing (handle_outliers d) = flag_extreme_bills (billing d)"
    and r: "outages (handle_outliers d) = flag_extreme_outages (outages d)"
    and u: "usage (handle_outliers d) = cap_usage (usage d)"
    and s: "subscribers (handle_outliers d) = subscribers d"
    and t: "tickets (handle_outliers d) = tickets d"
    by (simp_all add: handle_outliers_def)
  have b1: "map bill_amount (flag_extreme_bills (billing d)) = map bill_amount (billing d)"
    unfolding flag_extreme_bills_eq map_map by (rule map_cong) auto
  have r1: "map outage_duration_mins (flag_extreme_outages (outages d)) =
      map outage_duration_mins (outages d)"
    unfolding flag_extreme_outages_eq map_map by (rule map_cong) auto
  have r2: "map affected_subscribers (flag_extreme_outages (outages d)) =
      map affected_subscribers (outages d)"
    unfolding flag_extreme_outages_eq map_map by (rule map_cong) auto
  have u1: "map call_minutes (cap_usage (usage d)) = map call_minutes (usage d)"
    unfolding cap_usage_eq map_map by (rule map_cong) auto
  have u2: "map sms_count (cap_usage (usage d)) = map sms_count (usage d)"
    unfolding cap_usage_eq map_map by (rule map_cong) auto
  have u3: "map roaming_charges (cap_usage (usage d)) = map roaming_charges (usage d)"
    unfolding cap_usage_eq map_map by (rule map_cong) auto
  show ?thesis
    unfolding b r u s t b1 r1 r2 u1 u2 u3
    by (simp add: flag_extreme_bills_eq flag_extreme_outages_eq cap_usage_eq)
qed

section \<open>The Consistency Repairer\<close>

lemma remove_negative_bills_eq:
  "remove_negative_bills bs =
     filter (\<lambda>b. (\<exists>a. bill_amount b = Finite a \<and> 0 \<le> a) \<or> bill_amount b = PosInf) bs"
  by (simp add: remove_negative_bills_def ge_const_iff)

text \<open>
  Claim C10. The billing rows \<open>fix_impossible_values\<close> keeps are exactly the input rows
  with a present \<^verbatim>\<open>bill_amount\<close> that is at least 0: a row with a missing amount is
  removed, as a row with a negative amount is, and no output row has a missing amount.
\<close>

theorem fix_impossible_values_removes_missing_bill_amount:
  "billing (fix_impossible_values d) =
     filter (\<lambda>b. (\<exists>a. bill_amount b = Finite a \<and> 0 \<le> a) \<or> bill_amount b = PosInf)
       (billing d) \<and>
   (\<forall>b \<in> set (billing d). bill_amount b = NaN \<longrightarrow> b \<notin> set (billing (fix_impossible_values d))) \<and>
   (\<forall>b \<in> set (billing d). \<forall>a. bill_amount b = Finite a \<and> a < 0 \<longrightarrow>
       b \<notin> set (billing (fix_impossible_values d))) \<and>
   (\<forall>b \<in> set (billing (fix_impossible_values d)). bill_amount b \<noteq> NaN)"
  by (auto simp: fix_impossible_values_def remove_negative_bills_eq)

theorem fix_impossible_values_removes_missing_bill_amount_witness:
  "billing_row ''BILL0000003'' NaN ''Overdue'' None \<in> set (billing scenario_tables) \<and>
   bill_amount (billing_row ''BILL0000003'' NaN ''Overdue'' None) = NaN \<and>
   billing_row ''BILL0000003'' NaN ''Overdue'' None
     \<notin> set (billing (fix_impossible_values scenario_tables)) \<and>
   billing_row ''BILL0000001'' (Finite (- 50)) ''Paid'' (Some 310) \<in> set (billing scenario_tables) \<and>
   billing_row ''BILL0000001'' (Finite (- 50)) ''Paid'' (Some 310)
     \<notin> set (billing (fix_impossible_values scenario_tables)) \<and>
   billing_row ''BILL0000004'' (Finite 80) ''Paid'' None
     \<in> set (billing (fix_impossible_values scenario_tables)) \<and>
   bill_amount (billing_row ''BILL0000004'' (Finite 80) ''Paid'' None) \<noteq> NaN"
proof -
  have m: "billing_row ''BILL0000003'' NaN ''Overdue'' None \<in> set (billing scenario_tables)"
    by code_simp
  have n: "bill_amount (billing_row ''BILL0000003'' NaN ''Overdue'' None) = NaN"
    by code_simp
  have g: "billing_row ''BILL0000001'' (Finite (- 50)) ''Paid'' (Some 310)
      \<in> set (billing scenario_tables)"
    by code_simp
  have a: "bill_amount (billing_row ''BILL0000001'' (Finite (- 50)) ''Paid'' (Some 310))
      = Finite (- 50)"
    by code_simp
  have k: "billing_row ''BILL0000004'' (Finite 80) ''Paid'' None
     \<in> set (billing (fix_impossible_values scenario_tables))"
    by code_simp
  from fix_impossible_values_removes_missing_bill_amount [of scenario_tables] m n g a k
  show ?thesis by auto
qed

lemma fix_ticket_dates_resolution:
  "map resolution_date (fix_ticket_dates ts) =
     map (\<lambda>t. if \<exists>r. resolution_date t = Some r \<and> r < ticket_date t
               then None else resolution_date t) ts"
  unfolding fix_ticket_dates_def map_map
  by (rule map_cong) (auto simp: date_before_iff)

lemma fix_ticket_dates_status:
  "map ticket_status (fix_ticket_dates ts) =
     map (\<lambda>t. if ticket_status t = ''Resolved'' \<and>
                  (resolution_date t = None \<or>
                   (\<exists>r. resolution_date t = Some r \<and> r < ticket_date t))
               then ''In Progress'' else ticket_status t) ts"
  unfolding fix_ticket_dates_def map_map
  by (rule map_cong) (auto simp: date_before_iff)

lemma fix_ticket_dates_resolved:
  "t \<in> set (fix_ticket_dates ts) \<Longrightarrow> ticket_status t = ''Resolved'' \<Longrightarrow> resolution_date t \<noteq> None"
  unfolding fix_ticket_dates_def by (auto split: if_splits)

lemma fix_ticket_dates_ordered:
  "t \<in> set (fix_ticket_dates ts) \<Longrightarrow> resolution_date t = Some r \<Longrightarrow> ticket_date t \<le> r"
  unfolding fix_ticket_dates_def by (auto simp: date_before_iff split: if_splits)

text \<open>
  Claim C5. \<open>fix_impossible_values\<close> clears the \<^verbatim>\<open>resolution_date\<close> of every ticket whose
  resolution date is earlier than its \<^verbatim>\<open>ticket_date\<close> and keeps every other one; a ticket
  with status \<^verbatim>\<open>Resolved\<close> whose resolution date is then missing gets the status
  \<^verbatim>\<open>In Progress\<close>, every other status is kept; so no ticket of the output is \<^verbatim>\<open>Resolved\<close>
  with a missing resolution date.
\<close>

theorem fix_impossible_values_ticket_cascade:
  "map resolution_date (tickets (fix_impossible_values d)) =
     map (\<lambda>t. if \<exists>r. resolution_date t = Some r \<and> r < ticket_date t
               then None else resolution_date t) (tickets d) \<and>
   map ticket_status (tickets (fix_impossible_values d)) =
     map (\<lambda>t. if ticket_status t = ''Resolved'' \<and>
                  (resolution_date t = None \<or>
                   (\<exists>r. resolution_date t = Some r \<and> r < ticket_date t))
               then ''In Progress'' else ticket_status t) (tickets d) \<and>
   (\<forall>t \<in> set (tickets (fix_impossible_values d)).
      \<not> (ticket_status t = ''Resolved'' \<and> resolution_date t = None))"
proof -
  have t: "tickets (fix_impossible_values d) = fix_ticket_dates (tickets d)"
    by (simp add: fix_impossible_values_def)
  show ?thesis
    unfolding t using fix_ticket_dates_resolved [of _ "tickets d"]
    by (auto simp: fix_ticket_dates_resolution fix_ticket_dates_status)
qed

theorem fix_impossible_values_ticket_cascade_witness:
  "(ticket_row ''TKT0000001'' ''In Progress'' 500 None)
     \<in> set (tickets (fix_impossible_values scenario_tables)) \<and>
   (ticket_row ''TKT0000004'' ''Resolved'' 520 (Some 530))
     \<in> set (tickets (fix_impossible_values scenario_tables)) \<and>
   \<not> (ticket_status (ticket_row ''TKT0000004'' ''Resolved'' 520 (Some 530)) = ''Resolved'' \<and>
      resolution_date (ticket_row ''TKT0000004'' ''Resolved'' 520 (Some 530)) = None) \<and>
   map ticket_status (tickets (fix_impossible_values scenario_tables)) =
     [''In Progress'', ''Closed'', ''OPEN'', ''Resolved'']"
proof -
  have a: "(ticket_row ''TKT0000001'' ''In Progress'' 500 None)
     \<in> set (tickets (fix_impossible_values scenario_tables))" by code_simp
  have b: "(ticket_row ''TKT0000004'' ''Resolved'' 520 (Some 530))
     \<in> set (tickets (fix_impossible_values scenario_tables))" by code_simp
  have c: "map ticket_status (tickets (fix_impossible_values scenario_tables)) =
     [''In Progress'', ''Closed'', ''OPEN'', ''Resolved'']" by code_simp
  from fix_impossible_values_ticket_cascade [of scenario_tables] a b c show ?thesis by blast
qed

section \<open>The whole pipeline\<close>

text \<open>What a run that returns makes of each table, stage by stage.\<close>

lemma before_fix_Inr:
  assumes "before_fix series_sum d = Inr d4"
  obtains d3 where "handle_missing_values series_sum (before_missing_values d) = Inr d3"
    and "d4 = handle_outliers d3"
  using assms unfolding before_fix_def by (auto split: sum.splits)

lemma main_Inr:
  assumes "main series_sum d = Inr out"
  obtains d4 where "before_fix series_sum d = Inr d4" and "out = fix_impossible_values d4"
  using assms unfolding main_def by (auto split: sum.splits)

lemma billing_before_fix:
  assumes "before_fix series_sum d = Inr d4"
  shows "billing d4 =
     flag_extreme_bills (flag_missing_payment (drop_duplicates bill_id (billing d)))"
proof -
  from assms obtain d3
    where h: "handle_missing_values series_sum (before_missing_values d) = Inr d3"
      and d4: "d4 = handle_outliers d3"
    by (rule before_fix_Inr)
  show ?thesis
    unfolding d4
    by (simp add: handle_outliers_def handle_missing_values_Inr(3) [OF h]
        before_missing_values_def standardize_labels_def remove_duplicates_def)
qed

lemma tickets_before_fix:
  assumes "before_fix series_sum d = Inr d4"
  shows "tickets d4 = flag_missing_resolution (tickets (before_missing_values d))"
proof -
  from assms obtain d3
    where h: "handle_missing_values series_sum (before_missing_values d) = Inr d3"
      and d4: "d4 = handle_outliers d3"
    by (rule before_fix_Inr)
  show ?thesis
    unfolding d4 by (simp add: handle_outliers_def handle_missing_values_Inr(4) [OF h])
qed

lemma usage_before_fix:
  assumes "before_fix series_sum d = Inr d4"
  shows "usage d4 = cap_usage (impute_usage series_sum (drop_duplicates usage_id (usage d)))"
proof -
  from assms obtain d3
    where h: "handle_missing_values series_sum (before_missing_values d) = Inr d3"
      and d4: "d4 = handle_outliers d3"
    by (rule before_fix_Inr)
  show ?thesis
    unfolding d4
    by (simp add: handle_outliers_def handle_missing_values_Inr(2) [OF h]
        before_missing_values_def standardize_labels_def remove_duplicates_def)
qed

lemma subscribers_before_fix:
  assumes "before_fix series_sum d = Inr d4"
  shows "subscribers d4 =
     map (\<lambda>s. s\<lparr>city := replace city_mapping (city s)\<rparr>)
       (map (\<lambda>s. s\<lparr>plan_type := replace plan_type_mapping (plan_type s)\<rparr>)
          (drop_duplicates subscriber_id (subscribers d)))"
proof -
  from assms obtain d3
    where h: "handle_missing_values series_sum (before_missing_values d) = Inr d3"
      and d4: "d4 = handle_outliers d3"
    by (rule before_fix_Inr)
  show ?thesis
    unfolding d4
    by (simp add: handle_outliers_def handle_missing_values_Inr(1) [OF h]
        before_missing_values_def standardize_labels_def remove_duplicates_def)
qed

lemma flag_missing_payment_row:
  "b \<in> set (flag_missing_payment bs) \<Longrightarrow>
     billing_data_quality_flag b = Some (payment_status b = ''Paid'' \<and> payment_date b = None)"
  unfolding flag_missing_payment_def by auto

lemma flag_extreme_bills_row:
  assumes "b \<in> set (flag_extreme_bills bs)"
    and "\<And>c. c \<in> set bs \<Longrightarrow>
      billing_data_quality_flag c = Some (payment_status c = ''Paid'' \<and> payment_date c = None)"
  shows "billing_data_quality_flag b =
     Some ((payment_status b = ''Paid'' \<and> payment_date b = None) \<or>
           (\<exists>a. bill_amount b = Finite a \<and> 2000 < a) \<or> bill_amount b = PosInf)"
proof -
  from assms(1) obtain c where c: "c \<in> set bs"
    and b: "b = (if (\<exists>a. bill_amount c = Finite a \<and> 2000 < a) \<or> bill_amount c = PosInf
                 then c\<lparr>billing_data_quality_flag := Some True\<rparr> else c)"
    unfolding flag_extreme_bills_eq set_map by blast
  from assms(2) [OF c] b show ?thesis by (auto split: if_splits)
qed

lemma flag_missing_resolution_flags:
  "map ticket_data_quality_flag (flag_missing_resolution ts) =
     map (\<lambda>t. Some (ticket_status t = ''Resolved'' \<and> resolution_date t = None)) ts"
  unfolding flag_missing_resolution_def map_map by (rule map_cong) auto

lemma flag_missing_resolution_ids:
  "map ticket_id (flag_missing_resolution ts) = map ticket_id ts"
  unfolding flag_missing_resolution_def map_map by (rule map_cong) auto

lemma fix_ticket_dates_flags:
  "map ticket_data_quality_flag (fix_ticket_dates ts) = map ticket_data_quality_flag ts"
  unfolding fix_ticket_dates_def map_map by (rule map_cong) auto

lemma fix_ticket_dates_ids: "map ticket_id (fix_ticket_dates ts) = map ticket_id ts"
  unfolding fix_ticket_dates_def map_map by (rule map_cong) auto

text \<open>
  Claim C4. Every billing row that a run of \<open>main\<close> returns has its
  \<^verbatim>\<open>data_quality_flag\<close> set, and it is true exactly when the row is \<^verbatim>\<open>Paid\<close> with a missing
  \<^verbatim>\<open>payment_date\<close> or its \<^verbatim>\<open>bill_amount\<close> exceeds 2000. The tickets the run returns are,
  row for row, the tickets the Missing-Value Resolver received (after deduplication and
  canonicalization), and the flag of a ticket is true exactly when that ticket was
  \<^verbatim>\<open>Resolved\<close> with a missing \<^verbatim>\<open>resolution_date\<close> on entry to the Missing-Value Resolver,
  which sets it so.
\<close>

theorem data_quality_flag_iff:
  "(main series_sum d = Inr out \<longrightarrow>
      (\<forall>b \<in> set (billing out).
          billing_data_quality_flag b =
            Some ((payment_status b = ''Paid'' \<and> payment_date b = None) \<or>
                  (\<exists>a. bill_amount b = Finite a \<and> 2000 < a) \<or> bill_amount b = PosInf)) \<and>
      map ticket_id (tickets out) = map ticket_id (tickets (before_missing_values d)) \<and>
      map ticket_data_quality_flag (tickets out) =
        map (\<lambda>t. Some (ticket_status t = ''Resolved'' \<and> resolution_date t = None))
          (tickets (before_missing_values d))) \<and>
   (handle_missing_values series_sum d = Inr res \<longrightarrow>
      map ticket_data_quality_flag (tickets res) =
        map (\<lambda>t. Some (ticket_status t = ''Resolved'' \<and> resolution_date t = None)) (tickets d))"
proof (intro conjI impI ballI)
  fix b
  assume m: "main series_sum d = Inr out" and b: "b \<in> set (billing out)"
  from m obtain d4 where d4: "before_fix series_sum d = Inr d4"
    and out: "out = fix_impossible_values d4"
    by (rule main_Inr)
  from b have "b \<in> set (flag_extreme_bills (flag_missing_payment
       (drop_duplicates bill_id (billing d))))"
    by (simp add: out fix_impossible_values_def remove_negative_bills_def
        billing_before_fix [OF d4])
  then show "billing_data_quality_flag b =
        Some ((payment_status b = ''Paid'' \<and> payment_date b = None) \<or>
              (\<exists>a. bill_amount b = Finite a \<and> 2000 < a) \<or> bill_amount b = PosInf)"
    by (rule flag_extreme_bills_row) (rule flag_missing_payment_row)
next
  assume m: "main series_sum d = Inr out"
  from m obtain d4 where d4: "before_fix series_sum d = Inr d4"
    and out: "out = fix_impossible_values d4"
    by (rule main_Inr)
  have t: "tickets out =
      fix_ticket_dates (flag_missing_resolution (tickets (before_missing_values d)))"
    by (simp add: out fix_impossible_values_def tickets_before_fix [OF d4])
  show "map ticket_id (tickets out) = map ticket_id (tickets (before_missing_values d))"
    by (simp add: t fix_ticket_dates_ids flag_missing_resolution_ids)
  show "map ticket_data_quality_flag (tickets out) =
     map (\<lambda>t. Some (ticket_status t = ''Resolved'' \<and> resolution_date t = None))
       (tickets (before_missing_values d))"
    by (simp add: t fix_ticket_dates_flags flag_missing_resolution_flags)
next
  assume "handle_missing_values series_sum d = Inr res"
  then show "map ticket_data_quality_flag (tickets res) =
     map (\<lambda>t. Some (ticket_status t = ''Resolved'' \<and> resolution_date t = None)) (tickets d)"
    by (simp add: handle_missing_values_Inr(4) flag_missing_resolution_flags)
qed

theorem data_quality_flag_iff_witness:
  "main float64_sum scenario_tables = Inr (projr (main float64_sum scenario_tables)) \<and>
   (billing_row ''BILL0000002'' (Finite 5200) ''Pending'' None)
      \<lparr>billing_data_quality_flag := Some True\<rparr>
      \<in> set (billing (projr (main float64_sum scenario_tables))) \<and>
   (billing_row ''BILL0000004'' (Finite 80) ''Paid'' None)
      \<lparr>billing_data_quality_flag := Some True\<rparr>
      \<in> set (billing (projr (main float64_sum scenario_tables))) \<and>
   (billing_row ''BILL0000005'' (Finite 90) ''Paid'' (Some 312))
      \<lparr>billing_data_quality_flag := Some False\<rparr>
      \<in> set (billing (projr (main float64_sum scenario_tables))) \<and>
   map billing_data_quality_flag (billing (projr (main float64_sum scenario_tables))) =
     map (\<lambda>b. Some ((payment_status b = ''Paid'' \<and> payment_date b = None) \<or>
                     (\<exists>a. bill_amount b = Finite a \<and> 2000 < a) \<or> bill_amount b = PosInf))
       (billing (projr (main float64_sum scenario_tables))) \<and>
   map ticket_data_quality_flag (tickets (projr (main float64_sum scenario_tables))) =
     [Some False, Some True, Some False, Some False]"
proof -
  let ?out = "projr (main float64_sum scenario_tables)"
  have e: "main float64_sum scenario_tables = Inr ?out" by code_simp
  have a: "(billing_row ''BILL0000002'' (Finite 5200) ''Pending'' None)
      \<lparr>billing_data_quality_flag := Some True\<rparr> \<in> set (billing ?out)"
    by code_simp
  have b: "(billing_row ''BILL0000004'' (Finite 80) ''Paid'' None)
      \<lparr>billing_data_quality_flag := Some True\<rparr> \<in> set (billing ?out)"
    by code_simp
  have c: "(billing_row ''BILL0000005'' (Finite 90) ''Paid'' (Some 312))
      \<lparr>billing_data_quality_flag := Some False\<rparr> \<in> set (billing ?out)"
    by code_simp
  have t: "map ticket_data_quality_flag (tickets ?out) =
     [Some False, Some True, Some False, Some False]"
    by code_simp
  have f: "map billing_data_quality_flag (billing ?out) =
     map (\<lambda>b. Some ((payment_status b = ''Paid'' \<and> payment_date b = None) \<or>
                     (\<exists>a. bill_amount b = Finite a \<and> 2000 < a) \<or> bill_amount b = PosInf))
       (billing ?out)"
    using data_quality_flag_iff [of float64_sum scenario_tables ?out] e
    by (intro map_cong) auto
  from e a b c t f show ?thesis by simp
qed

text \<open>
  The join of the last stage. An id is valid when some usage row with that id joins a
  subscriber row activated no later than the usage date. Where the usage ids are
  distinct, the rows kept are the rows that themselves join such a subscriber.
\<close>

lemma valid_usage_ids_iff:
  "i \<in> set (valid_usage_ids us ss) \<longleftrightarrow>
     (\<exists>u \<in> set us. \<exists>s \<in> set ss. subscriber_id s = usage_subscriber_id u \<and>
        activation_date s \<le> usage_date u \<and> usage_id u = i)"
  unfolding valid_usage_ids_def usage_merged_def by force

lemma same_key_same_row:
  "distinct (map key rs) \<Longrightarrow> x \<in> set rs \<Longrightarrow> y \<in> set rs \<Longrightarrow> key x = key y \<Longrightarrow> x = y"
  by (auto simp: distinct_map dest: inj_onD)

lemma remove_usage_before_activation_eq:
  assumes "distinct (map usage_id us)"
  shows "remove_usage_before_activation us ss =
     filter (\<lambda>u. \<exists>s \<in> set ss. subscriber_id s = usage_subscriber_id u \<and>
                    activation_date s \<le> usage_date u) us"
  unfolding remove_usage_before_activation_def
proof (rule filter_cong [OF refl])
  fix u assume u: "u \<in> set us"
  show "usage_id u \<in> set (valid_usage_ids us ss) \<longleftrightarrow>
     (\<exists>s \<in> set ss. subscriber_id s = usage_subscriber_id u \<and> activation_date s \<le> usage_date u)"
  proof
    assume "usage_id u \<in> set (valid_usage_ids us ss)"
    then obtain u' s where u': "u' \<in> set us" and s: "s \<in> set ss"
      and j: "subscriber_id s = usage_subscriber_id u'" "activation_date s \<le> usage_date u'"
      and i: "usage_id u' = usage_id u"
      unfolding valid_usage_ids_iff by blast
    from assms u' u i have "u' = u" by (rule same_key_same_row)
    with s j show "\<exists>s \<in> set ss. subscriber_id s = usage_subscriber_id u \<and>
        activation_date s \<le> usage_date u" by blast
  next
    assume "\<exists>s \<in> set ss. subscriber_id s = usage_subscriber_id u \<and>
        activation_date s \<le> usage_date u"
    with u show "usage_id u \<in> set (valid_usage_ids us ss)"
      unfolding valid_usage_ids_iff by blast
  qed
qed

lemma impute_usage_ids: "map usage_id (impute_usage series_sum us) = map usage_id us"
  unfolding impute_usage_eq map_map by (rule map_cong) auto

lemma cap_usage_ids: "map usage_id (cap_usage us) = map usage_id us"
  unfolding cap_usage_eq map_map by (rule map_cong) auto

lemma distinct_usage_ids_before_fix:
  "before_fix series_sum d = Inr d4 \<Longrightarrow> distinct (map usage_id (usage d4))"
  by (simp add: usage_before_fix cap_usage_ids impute_usage_ids distinct_drop_duplicates)

lemma subscriber_ids_before_fix:
  assumes "before_fix series_sum d = Inr d4"
  shows "map subscriber_id (subscribers d4) =
     map subscriber_id (drop_duplicates subscriber_id (subscribers d))"
  unfolding subscribers_before_fix [OF assms] map_map by (rule map_cong) auto

lemma distinct_subscriber_ids_before_fix:
  "before_fix series_sum d = Inr d4 \<Longrightarrow> distinct (map subscriber_id (subscribers d4))"
  by (simp add: subscriber_ids_before_fix distinct_drop_duplicates)

lemma usage_fix_eq:
  assumes "before_fix series_sum d = Inr d4"
  shows "usage (fix_impossible_values d4) =
     filter (\<lambda>u. \<exists>s \<in> set (subscribers d4).
                    subscriber_id s = usage_subscriber_id u \<and>
                    activation_date s \<le> usage_date u) (usage d4)"
proof -
  have "usage (fix_impossible_values d4) =
      remove_usage_before_activation (usage d4) (subscribers d4)"
    by (simp add: fix_impossible_values_def)
  also have "\<dots> = filter (\<lambda>u. \<exists>s \<in> set (subscribers d4).
                    subscriber_id s = usage_subscriber_id u \<and>
                    activation_date s \<le> usage_date u) (usage d4)"
    by (rule remove_usage_before_activation_eq)
      (rule distinct_usage_ids_before_fix [OF assms])
  finally show ?thesis .
qed

text \<open>
  Claim C9. In every run that reaches it, the Consistency Repairer receives tables
  \<open>d4\<close> with \<open>before_fix series_sum d = Inr d4\<close>, in which the Deduplicator has made the
  usage ids distinct. A usage row of these tables whose \<^verbatim>\<open>subscriber_id\<close> is the id of no
  subscriber row has no partner in the inner join: its \<^verbatim>\<open>usage_id\<close> is not among the
  valid ids and the row is not in the output, whatever its date.
\<close>

theorem fix_impossible_values_removes_orphan_usage:
  "before_fix series_sum d = Inr d4 \<longrightarrow>
   (\<forall>u \<in> set (usage d4).
      usage_subscriber_id u \<notin> subscriber_id ` set (subscribers d4) \<longrightarrow>
      usage_id u \<notin> set (valid_usage_ids (usage d4) (subscribers d4)) \<and>
      u \<notin> set (usage (fix_impossible_values d4)))"
proof (intro ballI impI)
  fix u
  assume d4: "before_fix series_sum d = Inr d4"
    and u: "u \<in> set (usage d4)"
    and orphan: "usage_subscriber_id u \<notin> subscriber_id ` set (subscribers d4)"
  have "usage_id u \<notin> set (valid_usage_ids (usage d4) (subscribers d4))"
  proof
    assume "usage_id u \<in> set (valid_usage_ids (usage d4) (subscribers d4))"
    then obtain u' s where u': "u' \<in> set (usage d4)"
      and s: "s \<in> set (subscribers d4)"
      and j: "subscriber_id s = usage_subscriber_id u'"
      and i: "usage_id u' = usage_id u"
      unfolding valid_usage_ids_iff by blast
    from distinct_usage_ids_before_fix [OF d4] u' u i have "u' = u"
      by (rule same_key_same_row)
    with s j orphan show False by force
  qed
  moreover have "u \<notin> set (usage (fix_impossible_values d4))"
    unfolding usage_fix_eq [OF d4] using orphan by force
  ultimately show "usage_id u \<notin> set (valid_usage_ids (usage d4) (subscribers d4)) \<and>
      u \<notin> set (usage (fix_impossible_values d4))" by simp
qed

theorem fix_impossible_values_removes_orphan_usage_witness:
  "before_fix float64_sum scenario_tables = Inr (projr (before_fix float64_sum scenario_tables)) \<and>
   (usage_row ''USG0000005'' (Some ''SUB000009'') 230 (Finite 100))
      \<lparr>usage_outlier_flag := Some True\<rparr>
      \<in> set (usage (projr (before_fix float64_sum scenario_tables))) \<and>
   Some ''SUB000009''
      \<notin> subscriber_id ` set (subscribers (projr (before_fix float64_sum scenario_tables))) \<and>
   ''USG0000005''
      \<notin> set (valid_usage_ids (usage (projr (before_fix float64_sum scenario_tables)))
               (subscribers (projr (before_fix float64_sum scenario_tables)))) \<and>
   (usage_row ''USG0000005'' (Some ''SUB000009'') 230 (Finite 100))
      \<lparr>usage_outlier_flag := Some True\<rparr>
      \<notin> set (usage (fix_impossible_values (projr (before_fix float64_sum scenario_tables))))"
proof -
  let ?d4 = "projr (before_fix float64_sum scenario_tables)"
  let ?u = "(usage_row ''USG0000005'' (Some ''SUB000009'') 230 (Finite 100))
      \<lparr>usage_outlier_flag := Some True\<rparr>"
  have e: "before_fix float64_sum scenario_tables = Inr ?d4" by code_simp
  have m: "?u \<in> set (usage ?d4)" by code_simp
  have o: "Some ''SUB000009'' \<notin> subscriber_id ` set (subscribers ?d4)" by code_simp
  have s: "usage_subscriber_id ?u = Some ''SUB000009''" and i: "usage_id ?u = ''USG0000005''"
    by (simp_all add: usage_row_def)
  from fix_impossible_values_removes_orphan_usage [of float64_sum scenario_tables ?d4] e m o s i
  show ?thesis by (auto simp del: set_map)
qed

text \<open>
  Claim C1. In the tables a run of \<open>main\<close> returns, every usage row has a subscriber row
  with its \<^verbatim>\<open>subscriber_id\<close>, and its \<^verbatim>\<open>usage_date\<close> is not before the \<^verbatim>\<open>activation_date\<close>
  of any subscriber row with that id; every ticket with a resolution date has it not
  before its \<^verbatim>\<open>ticket_date\<close>; every billing row has a \<^verbatim>\<open>bill_amount\<close>, and it is at
  least 0.
\<close>

theorem main_preserves_invariants:
  "main series_sum d = Inr out \<longrightarrow>
   (\<forall>u \<in> set (usage out).
      (\<exists>s \<in> set (subscribers out). subscriber_id s = usage_subscriber_id u) \<and>
      (\<forall>s \<in> set (subscribers out).
          subscriber_id s = usage_subscriber_id u \<longrightarrow> activation_date s \<le> usage_date u)) \<and>
   (\<forall>t \<in> set (tickets out). \<forall>r. resolution_date t = Some r \<longrightarrow> ticket_date t \<le> r) \<and>
   (\<forall>b \<in> set (billing out).
      (\<exists>a. bill_amount b = Finite a \<and> 0 \<le> a) \<or> bill_amount b = PosInf)"
proof
  assume m: "main series_sum d = Inr out"
  from m obtain d4 where d4: "before_fix series_sum d = Inr d4"
    and out: "out = fix_impossible_values d4"
    by (rule main_Inr)
  have subs: "subscribers out = subscribers d4"
    by (simp add: out fix_impossible_values_def)
  have us: "usage out =
     filter (\<lambda>u. \<exists>s \<in> set (subscribers d4).
                    subscriber_id s = usage_subscriber_id u \<and>
                    activation_date s \<le> usage_date u) (usage d4)"
    unfolding out by (rule usage_fix_eq [OF d4])
  have ts: "tickets out = fix_ticket_dates (tickets d4)"
    by (simp add: out fix_impossible_values_def)
  have bs: "billing out = remove_negative_bills (billing d4)"
    by (simp add: out fix_impossible_values_def)
  show "(\<forall>u \<in> set (usage out).
      (\<exists>s \<in> set (subscribers out). subscriber_id s = usage_subscriber_id u) \<and>
      (\<forall>s \<in> set (subscribers out).
          subscriber_id s = usage_subscriber_id u \<longrightarrow> activation_date s \<le> usage_date u)) \<and>
   (\<forall>t \<in> set (tickets out). \<forall>r. resolution_date t = Some r \<longrightarrow> ticket_date t \<le> r) \<and>
   (\<forall>b \<in> set (billing out).
      (\<exists>a. bill_amount b = Finite a \<and> 0 \<le> a) \<or> bill_amount b = PosInf)"
  proof (intro conjI ballI allI impI)
    fix u assume "u \<in> set (usage out)"
    then obtain s where s: "s \<in> set (subscribers d4)"
      and j: "subscriber_id s = usage_subscriber_id u" "activation_date s \<le> usage_date u"
      unfolding us by auto
    from s j show "\<exists>s \<in> set (subscribers out). subscriber_id s = usage_subscriber_id u"
      unfolding subs by blast
    fix s' assume s': "s' \<in> set (subscribers out)"
      and j': "subscriber_id s' = usage_subscriber_id u"
    from s' have "s' \<in> set (subscribers d4)" by (simp add: subs)
    with distinct_subscriber_ids_before_fix [OF d4] have "s' = s"
      using s j' j(1) by (intro same_key_same_row [of subscriber_id]) simp_all
    with j show "activation_date s' \<le> usage_date u" by simp
  next
    fix t r assume "t \<in> set (tickets out)" and "resolution_date t = Some r"
    then show "ticket_date t \<le> r"
      unfolding ts by (rule fix_ticket_dates_ordered)
  next
    fix b assume "b \<in> set (billing out)"
    then show "(\<exists>a. bill_amount b = Finite a \<and> 0 \<le> a) \<or> bill_amount b = PosInf"
      by (simp add: bs remove_negative_bills_eq)
  qed
qed

theorem main_preserves_invariants_witness:
  "main float64_sum scenario_tables = Inr (projr (main float64_sum scenario_tables)) \<and>
   (usage_row ''USG0000002'' (Some ''SUB000001'') 210 (Finite 15))
      \<lparr>usage_outlier_flag := Some False\<rparr>
      \<in> set (usage (projr (main float64_sum scenario_tables))) \<and>
   (subscriber_row ''SUB000001'' ''Dubai'' ''Prepaid'' 100)
      \<in> set (subscribers (projr (main float64_sum scenario_tables))) \<and>
   activation_date (subscriber_row ''SUB000001'' ''Dubai'' ''Prepaid'' 100)
      \<le> usage_date (usage_row ''USG0000002'' (Some ''SUB000001'') 210 (Finite 15)) \<and>
   (ticket_row ''TKT0000004'' ''Resolved'' 520 (Some 530))
      \<lparr>ticket_data_quality_flag := Some False\<rparr>
      \<in> set (tickets (projr (main float64_sum scenario_tables))) \<and>
   ticket_date (ticket_row ''TKT0000004'' ''Resolved'' 520 (Some 530)) \<le> 530 \<and>
   (billing_row ''BILL0000004'' (Finite 80) ''Paid'' None)
      \<lparr>billing_data_quality_flag := Some True\<rparr>
      \<in> set (billing (projr (main float64_sum scenario_tables))) \<and>
   (\<exists>a. bill_amount (billing_row ''BILL0000004'' (Finite 80) ''Paid'' None) = Finite a \<and>
        0 \<le> a)"
proof -
  let ?out = "projr (main float64_sum scenario_tables)"
  let ?u = "(usage_row ''USG0000002'' (Some ''SUB000001'') 210 (Finite 15))
      \<lparr>usage_outlier_flag := Some False\<rparr>"
  let ?s = "subscriber_row ''SUB000001'' ''Dubai'' ''Prepaid'' 100"
  let ?t = "(ticket_row ''TKT0000004'' ''Resolved'' 520 (Some 530))
      \<lparr>ticket_data_quality_flag := Some False\<rparr>"
  let ?b = "(billing_row ''BILL0000004'' (Finite 80) ''Paid'' None)
      \<lparr>billing_data_quality_flag := Some True\<rparr>"
  have e: "main float64_sum scenario_tables = Inr ?out" by code_simp
  have u: "?u \<in> set (usage ?out)" by code_simp
  have s: "?s \<in> set (subscribers ?out)" by code_simp
  have t: "?t \<in> set (tickets ?out)" by code_simp
  have b: "?b \<in> set (billing ?out)" by code_simp
  have j: "subscriber_id ?s = usage_subscriber_id ?u"
    by (simp add: usage_row_def subscriber_row_def)
  have r: "resolution_date ?t = Some 530" by (simp add: ticket_row_def)
  have a: "bill_amount ?b \<noteq> PosInf" by (simp add: billing_row_def)
  note inv = main_preserves_invariants [of float64_sum scenario_tables ?out]
  from inv e u s j have "activation_date ?s \<le> usage_date ?u" by blast
  moreover from inv e t r have "ticket_date ?t \<le> 530" by blast
  moreover from inv e b a have "\<exists>a. bill_amount ?b = Finite a \<and> 0 \<le> a" by blast
  ultimately show ?thesis using e u s t b
    by (simp add: usage_row_def ticket_row_def billing_row_def)
qed

end
